theory Spec2Isabelle
  imports Complex_Main "HOL-Library.Multiset" "HOL-Library.Log_Nat"
begin

section \<open>JavaScript values used by paper.Selection\<close>

text \<open>
  The only exception the class can raise is a \<open>TypeError\<close>: reading a property of
  \<open>undefined\<close>, or calling something that is not a function.
\<close>

datatype error = TypeError

text \<open>
  A JavaScript number is an IEEE 754 double: a finite value, written as the real number
  it denotes (\<open>Fin 0\<close> is \<open>+0\<close>), the negative zero, the two infinities, or \<open>NaN\<close>.
\<close>

datatype number = Fin real | NegZero | PosInf | NegInf | NaN

text \<open>
  A field of the transformation object holds a number or \<open>null\<close>: the getter
  \<open>transformation\<close> copies through JSON, and JSON writes every non-finite number as
  \<open>null\<close>.
\<close>

datatype jsval = Null | Number number

fun toNumber :: "jsval \<Rightarrow> number" where
  "toNumber Null = Fin 0"
| "toNumber (Number n) = n"

fun truthy :: "jsval \<Rightarrow> bool" where
  "truthy Null = False"
| "truthy (Number (Fin v)) = (v \<noteq> 0)"
| "truthy (Number NegZero) = False"
| "truthy (Number NaN) = False"
| "truthy (Number PosInf) = True"
| "truthy (Number NegInf) = True"

text \<open>
  Rounding to the nearest double, ties to even. \<open>exponent a\<close> is the binary exponent of
  a positive number \<open>a\<close>: the integer \<open>e\<close> with \<open>2 powi e \<le> a < 2 powi (e + 1)\<close>. A double
  has 53 significant bits, so the doubles next to \<open>a\<close> are \<open>2 powi (e - 52)\<close> apart;
  below \<open>2 powi (- 1022)\<close> they are subnormal and stay \<open>2 powi (- 1074)\<close> apart. \<open>rnd\<close>
  rounds with no bound on the exponent from above. \<open>fl x\<close> is the result of an
  arithmetic operation whose exact value is \<open>x\<close>: it overflows to an infinity from
  \<open>2 powi 1024\<close> on, and keeps the sign when it underflows to zero.
\<close>

definition exponent :: "real \<Rightarrow> int" where
  "exponent a = (if 1 \<le> a then bitlen \<lfloor>a\<rfloor> - 1 else - bitlen (\<lceil>1 / a\<rceil> - 1))"

definition round_half_even :: "real \<Rightarrow> int" where
  "round_half_even t =
     (let f = \<lfloor>t\<rfloor>; d = t - of_int f
      in if d < 1 / 2 then f else if 1 / 2 < d then f + 1 else if even f then f else f + 1)"

definition rnd :: "real \<Rightarrow> real" where
  "rnd x =
     (if x = 0 then 0
      else let a = \<bar>x\<bar>; e = max (- 1022) (exponent a); ulp = 2 powi (e - 52)
           in sgn x * (of_int (round_half_even (a / ulp)) * ulp))"

definition fl :: "real \<Rightarrow> number" where
  "fl x =
     (let r = rnd x
      in if 2 powi 1024 \<le> \<bar>r\<bar> then (if 0 < x then PosInf else NegInf)
         else if r = 0 then (if x < 0 then NegZero else Fin 0)
         else Fin r)"

text \<open>The parts of a number: whether it is a zero or an infinity, its sign, its value.\<close>

fun is_zero :: "number \<Rightarrow> bool" where
  "is_zero (Fin a) = (a = 0)"
| "is_zero NegZero = True"
| "is_zero n = False"

fun is_inf :: "number \<Rightarrow> bool" where
  "is_inf PosInf = True"
| "is_inf NegInf = True"
| "is_inf n = False"

fun negative :: "number \<Rightarrow> bool" where
  "negative (Fin a) = (a < 0)"
| "negative NegZero = True"
| "negative NegInf = True"
| "negative n = False"

fun magnitude :: "number \<Rightarrow> real" where
  "magnitude (Fin a) = a"
| "magnitude n = 0"

fun zero_of :: "bool \<Rightarrow> number" where
  "zero_of True = NegZero"
| "zero_of False = Fin 0"

fun inf_of :: "bool \<Rightarrow> number" where
  "inf_of True = NegInf"
| "inf_of False = PosInf"

text \<open>
  Addition, multiplication and division of doubles. The sign of a zero or an infinity
  that comes from a zero or an infinity is the exclusive or of the signs of the operands
  (for a sum of two zeros, their conjunction); every other result is the exact one,
  rounded.
\<close>

definition num_add :: "number \<Rightarrow> number \<Rightarrow> number" where
  "num_add a b =
     (if a = NaN \<or> b = NaN then NaN
      else if is_inf a then (if is_inf b \<and> a \<noteq> b then NaN else a)
      else if is_inf b then b
      else if is_zero a \<and> is_zero b then zero_of (negative a \<and> negative b)
      else fl (magnitude a + magnitude b))"

definition num_mul :: "number \<Rightarrow> number \<Rightarrow> number" where
  "num_mul a b =
     (if a = NaN \<or> b = NaN then NaN
      else if is_inf a \<or> is_inf b
        then (if is_zero a \<or> is_zero b then NaN else inf_of (negative a \<noteq> negative b))
      else if is_zero a \<or> is_zero b then zero_of (negative a \<noteq> negative b)
      else fl (magnitude a * magnitude b))"

definition num_div :: "number \<Rightarrow> number \<Rightarrow> number" where
  "num_div a b =
     (if a = NaN \<or> b = NaN then NaN
      else if is_inf a then (if is_inf b then NaN else inf_of (negative a \<noteq> negative b))
      else if is_inf b then zero_of (negative a \<noteq> negative b)
      else if is_zero b
        then (if is_zero a then NaN else inf_of (negative a \<noteq> negative b))
      else if is_zero a then zero_of (negative a \<noteq> negative b)
      else fl (magnitude a / magnitude b))"

text \<open>The operators \<open>+\<close>, \<open>*\<close> and \<open>/\<close> on field values: \<open>null\<close> is coerced to \<open>0\<close>.\<close>

definition js_add :: "jsval \<Rightarrow> jsval \<Rightarrow> jsval" where
  "js_add a b = Number (num_add (toNumber a) (toNumber b))"

definition js_mul :: "jsval \<Rightarrow> jsval \<Rightarrow> jsval" where
  "js_mul a b = Number (num_mul (toNumber a) (toNumber b))"

definition js_div :: "jsval \<Rightarrow> jsval \<Rightarrow> jsval" where
  "js_div a b = Number (num_div (toNumber a) (toNumber b))"

text \<open>\<open>JSON.parse(JSON.stringify(v))\<close> on a field value.\<close>

fun json :: "jsval \<Rightarrow> jsval" where
  "json Null = Null"
| "json (Number (Fin v)) = Number (Fin v)"
| "json (Number NegZero) = Number (Fin 0)"
| "json (Number n) = Null"


section \<open>Geometry of the scene library\<close>

text \<open>
  Modelled from the spec: the point, rectangle and matrix primitives belong to the scene
  library (paper.js), which is not part of this source. A rectangle is its top-left
  corner and its extent; \<open>unite\<close> is the smallest rectangle containing both operands
  (the union bounding box of the spec); a point mapped through an absent matrix is the
  point itself. Coordinates are finite and idealised as reals. \<open>unite_doubles\<close> is the
  same union as the library computes it on doubles below the overflow threshold: the
  right and bottom edges are sums, the width and height are differences, and each of
  them is rounded.
\<close>

record point =
  px :: real
  py :: real

record rectangle =
  rx :: real
  ry :: real
  rw :: real
  rh :: real

record matrix =
  ma :: real
  mb :: real
  mc :: real
  md :: real
  mtx :: real
  mty :: real

definition new_Rectangle :: rectangle where
  "new_Rectangle = \<lparr>rx = 0, ry = 0, rw = 0, rh = 0\<rparr>"

definition topLeft :: "rectangle \<Rightarrow> point" where
  "topLeft r = \<lparr>px = rx r, py = ry r\<rparr>"

definition center :: "rectangle \<Rightarrow> point" where
  "center r = \<lparr>px = rx r + rw r / 2, py = ry r + rh r / 2\<rparr>"

definition unite :: "rectangle \<Rightarrow> rectangle \<Rightarrow> rectangle" where
  "unite a b =
     (let x1 = min (rx a) (rx b);
          y1 = min (ry a) (ry b);
          x2 = max (rx a + rw a) (rx b + rw b);
          y2 = max (ry a + rh a) (ry b + rh b)
      in \<lparr>rx = x1, ry = y1, rw = x2 - x1, rh = y2 - y1\<rparr>)"

text \<open>The right and bottom edges of a rectangle in exact coordinates.\<close>

definition right_edge :: "rectangle \<Rightarrow> real" where
  "right_edge r = rx r + rw r"

definition bottom_edge :: "rectangle \<Rightarrow> real" where
  "bottom_edge r = ry r + rh r"

definition unite_doubles :: "rectangle \<Rightarrow> rectangle \<Rightarrow> rectangle" where
  "unite_doubles a b =
     (let x1 = min (rx a) (rx b);
          y1 = min (ry a) (ry b);
          x2 = max (rnd (rx a + rw a)) (rnd (rx b + rw b));
          y2 = max (rnd (ry a + rh a)) (rnd (ry b + rh b))
      in \<lparr>rx = x1, ry = y1, rw = rnd (x2 - x1), rh = rnd (y2 - y1)\<rparr>)"

definition subtract :: "point \<Rightarrow> point \<Rightarrow> point" where
  "subtract p q = \<lparr>px = px p - px q, py = py p - py q\<rparr>"

definition transformPoint :: "matrix \<Rightarrow> point \<Rightarrow> point" where
  "transformPoint m p =
     \<lparr>px = px p * ma m + py p * mc m + mtx m,
      py = px p * mb m + py p * md m + mty m\<rparr>"

fun transform :: "point \<Rightarrow> matrix option \<Rightarrow> point" where
  "transform p None = p"
| "transform p (Some m) = transformPoint m p"


section \<open>Bounds helper\<close>

text \<open>
  Items are references to objects of the scene; a reference is a number, and the
  scene gives each item its \<open>bounds\<close>.
\<close>

type_synonym item = nat

text \<open>
  \<open>_getBoundsOfItems\<close>: an empty list gives \<open>new paper.Rectangle()\<close>; otherwise the
  loop starts from the first item's bounds (\<open>bounds\<close> is still \<open>null\<close> there) and unites
  the bounds of every later item into it.
\<close>

fun getBoundsOfItems :: "(item \<Rightarrow> rectangle) \<Rightarrow> item list \<Rightarrow> rectangle" where
  "getBoundsOfItems bounds [] = new_Rectangle"
| "getBoundsOfItems bounds (i # is) = foldl (\<lambda>b j. unite b (bounds j)) (bounds i) is"

text \<open>The same loop over the union as the library computes it on doubles.\<close>

fun getBoundsOfItems_doubles :: "(item \<Rightarrow> rectangle) \<Rightarrow> item list \<Rightarrow> rectangle" where
  "getBoundsOfItems_doubles bounds [] = new_Rectangle"
| "getBoundsOfItems_doubles bounds (i # is)
     = foldl (\<lambda>b j. unite_doubles b (bounds j)) (bounds i) is"


section \<open>The selection and its surroundings\<close>

text \<open>
  The transformation object \<open>{x, y, scaleX, scaleY, rotation, originX, originY}\<close>;
  the fields \<open>x\<close> and \<open>y\<close> are written \<open>tx\<close> and \<open>ty\<close>.
\<close>

record transformation =
  tx :: jsval
  ty :: jsval
  scaleX :: jsval
  scaleY :: jsval
  rotation :: jsval
  originX :: jsval
  originY :: jsval

text \<open>
  An object holding some of the fields of a transformation, as passed to
  \<open>updateTransformation\<close>; \<open>None\<close> is a key that is absent.
\<close>

record partial =
  new_x :: "jsval option"
  new_y :: "jsval option"
  new_scaleX :: "jsval option"
  new_scaleY :: "jsval option"
  new_rotation :: "jsval option"
  new_originX :: "jsval option"
  new_originY :: "jsval option"

definition no_change :: partial where
  "no_change = \<lparr>new_x = None, new_y = None, new_scaleX = None, new_scaleY = None,
     new_rotation = None, new_originX = None, new_originY = None\<rparr>"

text \<open>The constructor's \<open>args\<close>; \<open>None\<close> is a field that is \<open>undefined\<close>.\<close>

record args =
  arg_layer :: "nat option"
  arg_items :: "item list option"
  arg_x :: "jsval option"
  arg_y :: "jsval option"
  arg_scaleX :: "jsval option"
  arg_scaleY :: "jsval option"
  arg_rotation :: "jsval option"
  arg_originX :: "jsval option"
  arg_originY :: "jsval option"

definition no_args :: args where
  "no_args = \<lparr>arg_layer = None, arg_items = None, arg_x = None, arg_y = None,
     arg_scaleX = None, arg_scaleY = None, arg_rotation = None, arg_originX = None,
     arg_originY = None\<rparr>"

text \<open>
  What the class does to its surroundings: lines written to the console, and the calls
  made on visualization widgets. A widget is known by the number it got when it was
  created (\<open>new paper.SelectionGUI\<close>).
\<close>

datatype console_line = Log string | Error string

datatype gui_call =
    Created nat "item list" transformation rectangle
  | Destroyed nat
  | AddChild nat nat

record world =
  activeLayer :: nat
  bounds :: "item \<Rightarrow> rectangle"
  console :: "console_line list"
  gui_calls :: "gui_call list"
  next_gui :: nat

text \<open>
  The fields of a \<open>paper.Selection\<close>. The field \<open>matrix\<close> is \<open>this._matrix\<close>, which the
  position and origin getters read; \<open>None\<close> is \<open>undefined\<close>, for it as for \<open>gui\<close>.
\<close>

record selection =
  lockScalingToAspectRatio :: bool
  layer :: nat
  items :: "item list"
  transformation :: transformation
  untransformedBounds :: rectangle
  gui :: "nat option"
  matrix :: "matrix option"

text \<open>\<open>a || d\<close> on a field of \<open>args\<close>.\<close>

fun or_default :: "jsval option \<Rightarrow> jsval \<Rightarrow> jsval" where
  "or_default None d = d"
| "or_default (Some v) d = (if truthy v then v else d)"

text \<open>\<open>_rebuild\<close>.\<close>

definition rebuild :: "selection \<Rightarrow> world \<Rightarrow> selection \<times> world" where
  "rebuild s w =
     (let w1 = (case gui s of None \<Rightarrow> w
                | Some g \<Rightarrow> w\<lparr>gui_calls := gui_calls w @ [Destroyed g]\<rparr>);
          g' = next_gui w1;
          w2 = w1\<lparr>gui_calls := gui_calls w1
                     @ [Created g' (items s) (transformation s) (untransformedBounds s)],
                   next_gui := Suc g'\<rparr>;
          s' = s\<lparr>gui := Some g'\<rparr>;
          w3 = (if length (items s) > 0
                then w2\<lparr>gui_calls := gui_calls w2 @ [AddChild (layer s) g']\<rparr>
                else w2)
      in (s', w3))"

text \<open>The constructor. The origin is defaulted after the bounds are computed.\<close>

definition constructor :: "args option \<Rightarrow> world \<Rightarrow> selection \<times> world" where
  "constructor args0 w =
     (let w1 = w\<lparr>console := console w @ [Log ''Created Selection'']\<rparr>;
          a = (case args0 of None \<Rightarrow> no_args | Some a \<Rightarrow> a);
          lay = (case arg_layer a of Some l \<Rightarrow> l | None \<Rightarrow> activeLayer w1);
          its = (case arg_items a of Some is \<Rightarrow> is | None \<Rightarrow> []);
          t = \<lparr>tx = or_default (arg_x a) (Number (Fin 0)),
               ty = or_default (arg_y a) (Number (Fin 0)),
               scaleX = or_default (arg_scaleX a) (Number (Fin 1)),
               scaleY = or_default (arg_scaleY a) (Number (Fin 1)),
               rotation = or_default (arg_rotation a) (Number (Fin 0)),
               originX = Number (Fin 0),
               originY = Number (Fin 0)\<rparr>;
          ub = getBoundsOfItems (bounds w1) its;
          t1 = (case arg_originX a of Some v \<Rightarrow> t\<lparr>originX := v\<rparr>
                | None \<Rightarrow> t\<lparr>originX := Number (Fin (px (center ub)))\<rparr>);
          t2 = (case arg_originY a of Some v \<Rightarrow> t1\<lparr>originY := v\<rparr>
                | None \<Rightarrow> t1\<lparr>originY := Number (Fin (py (center ub)))\<rparr>)
      in rebuild \<lparr>lockScalingToAspectRatio = False, layer = lay, items = its,
                  transformation = t2, untransformedBounds = ub, gui = None,
                  matrix = None\<rparr> w1)"

text \<open>\<open>_destroy\<close>: \<open>this._gui.destroy()\<close>, whatever argument it is called with.\<close>

definition destroy :: "selection \<Rightarrow> world \<Rightarrow> (error + unit) \<times> world" where
  "destroy s w =
     (case gui s of
        None \<Rightarrow> (Inl TypeError, w)
      | Some g \<Rightarrow> (Inr (), w\<lparr>gui_calls := gui_calls w @ [Destroyed g]\<rparr>))"

text \<open>
  \<open>this._create()\<close>: the class defines no method \<open>_create\<close>, so the call raises a
  \<open>TypeError\<close> and changes nothing.
\<close>

definition create :: "selection \<Rightarrow> world \<Rightarrow> (error + unit) \<times> selection \<times> world" where
  "create s w = (Inl TypeError, s, w)"

text \<open>The accessors \<open>items\<close>.\<close>

definition get_items :: "selection \<Rightarrow> item list" where
  "get_items s = items s"

definition set_items ::
  "item list \<Rightarrow> selection \<Rightarrow> world \<Rightarrow> (error + unit) \<times> selection \<times> world" where
  "set_items is s w =
     (case destroy s w of
        (Inl e, w') \<Rightarrow> (Inl e, s, w')
      | (Inr u, w') \<Rightarrow> (Inr (), s\<lparr>items := is\<rparr>, w'))"

text \<open>The accessors \<open>transformation\<close>; the getter copies through JSON.\<close>

definition get_transformation :: "selection \<Rightarrow> transformation" where
  "get_transformation s =
     (let t = transformation s
      in \<lparr>tx = json (tx t), ty = json (ty t), scaleX = json (scaleX t),
          scaleY = json (scaleY t), rotation = json (rotation t),
          originX = json (originX t), originY = json (originY t)\<rparr>)"

definition set_transformation ::
  "transformation \<Rightarrow> selection \<Rightarrow> world \<Rightarrow> (error + unit) \<times> selection \<times> world" where
  "set_transformation t s w =
     (case destroy s w of
        (Inl e, w') \<Rightarrow> (Inl e, s, w')
      | (Inr u, w') \<Rightarrow> create (s\<lparr>transformation := t\<rparr>) w')"

text \<open>\<open>Object.assign(t, p)\<close>.\<close>

definition assign :: "transformation \<Rightarrow> partial \<Rightarrow> transformation" where
  "assign t p =
     \<lparr>tx = (case new_x p of None \<Rightarrow> tx t | Some v \<Rightarrow> v),
      ty = (case new_y p of None \<Rightarrow> ty t | Some v \<Rightarrow> v),
      scaleX = (case new_scaleX p of None \<Rightarrow> scaleX t | Some v \<Rightarrow> v),
      scaleY = (case new_scaleY p of None \<Rightarrow> scaleY t | Some v \<Rightarrow> v),
      rotation = (case new_rotation p of None \<Rightarrow> rotation t | Some v \<Rightarrow> v),
      originX = (case new_originX p of None \<Rightarrow> originX t | Some v \<Rightarrow> v),
      originY = (case new_originY p of None \<Rightarrow> originY t | Some v \<Rightarrow> v)\<rparr>"

definition updateTransformation ::
  "partial \<Rightarrow> selection \<Rightarrow> world \<Rightarrow> (error + unit) \<times> selection \<times> world" where
  "updateTransformation p s w = set_transformation (assign (get_transformation s) p) s w"

text \<open>The accessors \<open>position\<close>.\<close>

definition get_position :: "selection \<Rightarrow> point" where
  "get_position s = transform (topLeft (untransformedBounds s)) (matrix s)"

definition set_position ::
  "point \<Rightarrow> selection \<Rightarrow> world \<Rightarrow> (error + unit) \<times> selection \<times> world" where
  "set_position position s w =
     (let d = subtract position (get_position s)
      in updateTransformation
           (no_change\<lparr>new_x := Some (js_add (tx (get_transformation s)) (Number (Fin (px d)))),
                      new_y := Some (js_add (ty (get_transformation s)) (Number (Fin (py d))))\<rparr>)
           s w)"

text \<open>The accessors \<open>width\<close> and \<open>height\<close>.\<close>

definition get_width :: "selection \<Rightarrow> jsval" where
  "get_width s =
     js_mul (Number (Fin (rw (untransformedBounds s)))) (scaleX (get_transformation s))"

definition set_width ::
  "jsval \<Rightarrow> selection \<Rightarrow> world \<Rightarrow> (error + unit) \<times> selection \<times> world" where
  "set_width width s w =
     (let d = js_div (get_width s) width
      in updateTransformation
           (no_change\<lparr>new_scaleX := Some (js_div (scaleX (get_transformation s)) d)\<rparr>) s w)"

definition get_height :: "selection \<Rightarrow> jsval" where
  "get_height s =
     js_mul (Number (Fin (rh (untransformedBounds s)))) (scaleY (get_transformation s))"

definition set_height ::
  "jsval \<Rightarrow> selection \<Rightarrow> world \<Rightarrow> (error + unit) \<times> selection \<times> world" where
  "set_height height s w =
     (let d = js_div (get_height s) height
      in updateTransformation
           (no_change\<lparr>new_scaleY := Some (js_div (scaleY (get_transformation s)) d)\<rparr>) s w)"

text \<open>
  \<open>getPathAttribute\<close>, which the getters \<open>fillColor\<close>, \<open>strokeColor\<close> and \<open>strokeWidth\<close>
  call with their own name. The scene gives each item its attributes (\<open>attr\<close>). After
  the diagnostic the method goes on to \<open>this.items[0][attributeName]\<close>; on an empty
  list \<open>this.items[0]\<close> is \<open>undefined\<close> and reading a property of it raises.
\<close>

definition getPathAttribute ::
  "(item \<Rightarrow> string \<Rightarrow> 'v) \<Rightarrow> string \<Rightarrow> selection \<Rightarrow> world \<Rightarrow> (error + 'v) \<times> world" where
  "getPathAttribute attr attributeName s w =
     (let w1 = (if length (get_items s) = 0
                then w\<lparr>console := console w
                         @ [Error ''getPathAttribute(): Nothing in the selection!'']\<rparr>
                else w)
      in case get_items s of
           [] \<Rightarrow> (Inl TypeError, w1)
         | i # is \<Rightarrow> (Inr (attr i attributeName), w1))"

definition get_fillColor ::
  "(item \<Rightarrow> string \<Rightarrow> 'v) \<Rightarrow> selection \<Rightarrow> world \<Rightarrow> (error + 'v) \<times> world" where
  "get_fillColor attr s w = getPathAttribute attr ''fillColor'' s w"

definition get_strokeColor ::
  "(item \<Rightarrow> string \<Rightarrow> 'v) \<Rightarrow> selection \<Rightarrow> world \<Rightarrow> (error + 'v) \<times> world" where
  "get_strokeColor attr s w = getPathAttribute attr ''strokeColor'' s w"

definition get_strokeWidth ::
  "(item \<Rightarrow> string \<Rightarrow> 'v) \<Rightarrow> selection \<Rightarrow> world \<Rightarrow> (error + 'v) \<times> world" where
  "get_strokeWidth attr s w = getPathAttribute attr ''strokeWidth'' s w"


section \<open>The transform matrix of the specification\<close>

text \<open>
  The matrix as the specification words it: translate by \<open>(x, y)\<close>, then rotate by
  \<open>rotation\<close> (in degrees) about the origin, then scale about the origin, in application
  order; a point is therefore scaled first, rotated next and translated last. This
  definition follows the specification and not the source: it is what the position
  getter is compared with.
\<close>

definition compose :: "matrix \<Rightarrow> matrix \<Rightarrow> matrix" where
  "compose m n =
     \<lparr>ma = ma m * ma n + mc m * mb n,
      mb = mb m * ma n + md m * mb n,
      mc = ma m * mc n + mc m * md n,
      md = mb m * mc n + md m * md n,
      mtx = ma m * mtx n + mc m * mty n + mtx m,
      mty = mb m * mtx n + md m * mty n + mty m\<rparr>"

definition translate_matrix :: "real \<Rightarrow> real \<Rightarrow> matrix" where
  "translate_matrix x y = \<lparr>ma = 1, mb = 0, mc = 0, md = 1, mtx = x, mty = y\<rparr>"

definition rotate_matrix :: "real \<Rightarrow> real \<Rightarrow> real \<Rightarrow> matrix" where
  "rotate_matrix degrees ox oy =
     (let c = cos (degrees * pi / 180); s = sin (degrees * pi / 180)
      in \<lparr>ma = c, mb = s, mc = - s, md = c,
          mtx = ox - c * ox + s * oy, mty = oy - s * ox - c * oy\<rparr>)"

definition scale_matrix :: "real \<Rightarrow> real \<Rightarrow> real \<Rightarrow> real \<Rightarrow> matrix" where
  "scale_matrix sx sy ox oy =
     \<lparr>ma = sx, mb = 0, mc = 0, md = sy, mtx = ox - sx * ox, mty = oy - sy * oy\<rparr>"

definition spec_matrix ::
  "real \<Rightarrow> real \<Rightarrow> real \<Rightarrow> real \<Rightarrow> real \<Rightarrow> real \<Rightarrow> real \<Rightarrow> matrix" where
  "spec_matrix x y sx sy degrees ox oy =
     compose (translate_matrix x y)
       (compose (rotate_matrix degrees ox oy) (scale_matrix sx sy ox oy))"


section \<open>Depth order in the scene library\<close>

text \<open>
  Modelled from the spec: the layers of the scene and the depth operations of its items
  belong to the scene library, which is not part of this source. A layer is known by
  its \<open>id\<close>; \<open>children sc l\<close> lists the items of layer \<open>l\<close> from back to front, so that
  the \<open>index\<close> of an item is its place in that list and the last item is frontmost.
  Every item lies directly in its layer. \<open>item.layer\<close> is the layer holding the item,
  \<open>null\<close> when no layer does (\<open>None\<close>); \<open>nextSibling\<close> and \<open>previousSibling\<close> are the
  neighbours one step toward the front and the back, \<open>null\<close> at the ends;
  \<open>insertAbove\<close> and \<open>insertBelow\<close> take the item out and put it directly above or
  below the given sibling; \<open>bringToFront\<close> and \<open>sendToBack\<close> take it out and put it
  at the front or at the back of its layer.
\<close>

record scene =
  layers :: "nat list"
  children :: "nat \<Rightarrow> item list"

definition item_layer :: "scene \<Rightarrow> item \<Rightarrow> nat option" where
  "item_layer sc i = find (\<lambda>l. i \<in> set (children sc l)) (layers sc)"

definition index_in :: "item list \<Rightarrow> item \<Rightarrow> nat" where
  "index_in cs i = length (takeWhile (\<lambda>j. j \<noteq> i) cs)"

definition item_index :: "scene \<Rightarrow> item \<Rightarrow> nat" where
  "item_index sc i =
     (case item_layer sc i of None \<Rightarrow> 0 | Some l \<Rightarrow> index_in (children sc l) i)"


definition item_previousSibling :: "scene \<Rightarrow> item \<Rightarrow> item option" where
  "item_previousSibling sc i =
     (case item_layer sc i of
        None \<Rightarrow> None
      | Some l \<Rightarrow>
          (let cs = children sc l; k = index_in cs i
           in if 0 < k then Some (cs ! (k - 1)) else None))"

definition item_remove :: "item \<Rightarrow> scene \<Rightarrow> scene" where
  "item_remove i sc =
     (case item_layer sc i of
        None \<Rightarrow> sc
      | Some l \<Rightarrow> sc\<lparr>children := (children sc)(l := remove1 i (children sc l))\<rparr>)"


definition item_insertBelow :: "item \<Rightarrow> item \<Rightarrow> scene \<Rightarrow> scene" where
  "item_insertBelow i sibling sc =
     (case item_layer sc sibling of
        None \<Rightarrow> sc
      | Some l \<Rightarrow>
          (let sc1 = item_remove i sc; cs = children sc1 l; k = index_in cs sibling
           in sc1\<lparr>children := (children sc1)(l := take k cs @ i # drop k cs)\<rparr>))"

definition item_bringToFront :: "item \<Rightarrow> scene \<Rightarrow> scene" where
  "item_bringToFront i sc =
     (case item_layer sc i of
        None \<Rightarrow> sc
      | Some l \<Rightarrow> sc\<lparr>children := (children sc)(l := remove1 i (children sc l) @ [i])\<rparr>)"

definition item_sendToBack :: "item \<Rightarrow> scene \<Rightarrow> scene" where
  "item_sendToBack i sc =
     (case item_layer sc i of
        None \<Rightarrow> sc
      | Some l \<Rightarrow> sc\<lparr>children := (children sc)(l := i # remove1 i (children sc l))\<rparr>)"

text \<open>
  A scene is well formed when no item occurs twice in it, neither in one layer nor in
  two.
\<close>

definition wf_scene :: "scene \<Rightarrow> bool" where
  "wf_scene sc = distinct (concat (map (children sc) (layers sc)))"


section \<open>Ordering helpers and depth operations of the selection\<close>

text \<open>
  \<open>_sortItemsByLayer\<close>. The lists are the values of an object keyed by the layer id; a
  \<open>for ... in\<close> loop visits integer keys in ascending order, so the association list
  below is kept in ascending order of the id. \<open>item.layer.id\<close> raises for an item that
  is in no layer.
\<close>

fun add_to_layer :: "nat \<Rightarrow> item \<Rightarrow> (nat \<times> item list) list \<Rightarrow> (nat \<times> item list) list" where
  "add_to_layer l i [] = [(l, [i])]"
| "add_to_layer l i ((k, xs) # rest) =
     (if l = k then (k, xs @ [i]) # rest
      else if l < k then (l, [i]) # (k, xs) # rest
      else (k, xs) # add_to_layer l i rest)"

fun layerLists ::
  "scene \<Rightarrow> item list \<Rightarrow> (nat \<times> item list) list \<Rightarrow> error + (nat \<times> item list) list" where
  "layerLists sc [] acc = Inr acc"
| "layerLists sc (i # is) acc =
     (case item_layer sc i of
        None \<Rightarrow> Inl TypeError
      | Some l \<Rightarrow> layerLists sc is (add_to_layer l i acc))"

definition sortItemsByLayer :: "scene \<Rightarrow> item list \<Rightarrow> error + item list list" where
  "sortItemsByLayer sc is =
     (case layerLists sc is [] of Inl e \<Rightarrow> Inl e | Inr groups \<Rightarrow> Inr (map snd groups))"

text \<open>\<open>_sortItemsByZIndex\<close>: ascending in \<open>item.index\<close>.\<close>

definition sortItemsByZIndex :: "scene \<Rightarrow> item list \<Rightarrow> item list" where
  "sortItemsByZIndex sc is = sort_key (item_index sc) is"


definition moveBackwards_item :: "item list \<Rightarrow> scene \<Rightarrow> item \<Rightarrow> scene" where
  "moveBackwards_item selected sc i =
     (case item_previousSibling sc i of
        None \<Rightarrow> sc
      | Some n \<Rightarrow> if n \<notin> set selected then item_insertBelow i n sc else sc)"


definition moveBackwards :: "selection \<Rightarrow> scene \<Rightarrow> error + scene" where
  "moveBackwards s sc =
     (case sortItemsByLayer sc (items s) of
        Inl e \<Rightarrow> Inl e
      | Inr groups \<Rightarrow>
          Inr (foldl (\<lambda>sc1 g. foldl (moveBackwards_item (items s)) sc1
                                 (sortItemsByZIndex sc1 g))
                 sc groups))"

definition bringToFront :: "selection \<Rightarrow> scene \<Rightarrow> error + scene" where
  "bringToFront s sc =
     (case sortItemsByLayer sc (items s) of
        Inl e \<Rightarrow> Inl e
      | Inr groups \<Rightarrow>
          Inr (foldl (\<lambda>sc1 g. foldl (\<lambda>sc2 i. item_bringToFront i sc2) sc1
                                 (sortItemsByZIndex sc1 g))
                 sc groups))"

definition sendToBack :: "selection \<Rightarrow> scene \<Rightarrow> error + scene" where
  "sendToBack s sc =
     (case sortItemsByLayer sc (items s) of
        Inl e \<Rightarrow> Inl e
      | Inr groups \<Rightarrow>
          Inr (foldl (\<lambda>sc1 g. foldl (\<lambda>sc2 i. item_sendToBack i sc2) sc1
                                 (rev (sortItemsByZIndex sc1 g)))
                 sc groups))"


section \<open>Sizes of numbers\<close>

text \<open>
  The normal range of the doubles, the unit roundoff, and the numbers whose magnitude
  lies between \<open>2 powi (- n)\<close> and \<open>2 powi n\<close>.
\<close>

definition normal :: "real \<Rightarrow> bool" where
  "normal x \<longleftrightarrow> 2 powi (- 1022) \<le> \<bar>x\<bar> \<and> \<bar>x\<bar> < 2 powi 1023"

definition unit_roundoff :: real where
  "unit_roundoff = 2 powi (- 53)"

definition moderate :: "int \<Rightarrow> real \<Rightarrow> bool" where
  "moderate n x \<longleftrightarrow> 2 powi (- n) \<le> \<bar>x\<bar> \<and> \<bar>x\<bar> \<le> 2 powi n"


section \<open>Example scenes\<close>

text \<open>
  A scene in which every item has the bounds \<open>[0, 0, 10, 10]\<close> and no attribute, and
  in which nothing has been logged or drawn yet.
\<close>

definition square_bounds :: "item \<Rightarrow> rectangle" where
  "square_bounds i = \<lparr>rx = 0, ry = 0, rw = 10, rh = 10\<rparr>"

definition no_attributes :: "item \<Rightarrow> string \<Rightarrow> jsval option" where
  "no_attributes i n = None"

definition fresh_world :: world where
  "fresh_world = \<lparr>activeLayer = 0, bounds = square_bounds, console = [], gui_calls = [],
     next_gui = 0\<rparr>"

text \<open>\<open>new paper.Selection()\<close>, and the scene after it.\<close>

definition empty_selection :: selection where
  "empty_selection = fst (constructor None fresh_world)"

definition empty_selection_world :: world where
  "empty_selection_world = snd (constructor None fresh_world)"

text \<open>\<open>new paper.Selection({items: [item]})\<close> on one item, and the scene after it.\<close>

definition single_selection :: selection where
  "single_selection = fst (constructor (Some (no_args\<lparr>arg_items := Some [1]\<rparr>)) fresh_world)"

definition single_selection_world :: world where
  "single_selection_world
     = snd (constructor (Some (no_args\<lparr>arg_items := Some [1]\<rparr>)) fresh_world)"

text \<open>\<open>new paper.Selection({items: [item], x: 5})\<close>.\<close>

definition shifted_selection :: selection where
  "shifted_selection
     = fst (constructor
              (Some (no_args\<lparr>arg_items := Some [1], arg_x := Some (Number (Fin 5))\<rparr>))
              fresh_world)"

text \<open>\<open>new paper.Selection({items: [item], scaleX: 2 ** 1023})\<close>, and the scene after it.\<close>

definition huge_selection :: selection where
  "huge_selection
     = fst (constructor
              (Some (no_args\<lparr>arg_items := Some [1], arg_scaleX := Some (Number (Fin (2 ^ 1023)))\<rparr>))
              fresh_world)"

definition huge_selection_world :: world where
  "huge_selection_world
     = snd (constructor
              (Some (no_args\<lparr>arg_items := Some [1], arg_scaleX := Some (Number (Fin (2 ^ 1023)))\<rparr>))
              fresh_world)"

text \<open>
  Three items of height \<open>0\<close> on the line \<open>y = 0\<close>: a point at \<open>0\<close>, a sliver of width
  \<open>2 powi (- 52)\<close> (\<open>Number.EPSILON\<close>) at \<open>1\<close>, and a point at \<open>2 powi (- 53)\<close>.
\<close>

definition sliver_bounds :: "item \<Rightarrow> rectangle" where
  "sliver_bounds i =
     (if i = 1 then \<lparr>rx = 0, ry = 0, rw = 0, rh = 0\<rparr>
      else if i = 2 then \<lparr>rx = 1, ry = 0, rw = 2 powi (- 52), rh = 0\<rparr>
      else \<lparr>rx = 2 powi (- 53), ry = 0, rw = 0, rh = 0\<rparr>)"


definition back_two :: selection where
  "back_two
     = fst (constructor (Some (no_args\<lparr>arg_items := Some [1, 2]\<rparr>)) fresh_world)"


text \<open>The same scene with a selection of the items \<open>2\<close> and \<open>3\<close>, the two frontmost.\<close>

definition front_two :: selection where
  "front_two
     = fst (constructor (Some (no_args\<lparr>arg_items := Some [2, 3]\<rparr>)) fresh_world)"

text \<open>
  A scene of one layer holding the items \<open>1\<close> to \<open>5\<close> from back to front, and a
  selection of the three items in the middle, given in another order.
\<close>

definition five_items :: scene where
  "five_items = \<lparr>layers = [0], children = (\<lambda>l. if l = 0 then [1, 2, 3, 4, 5] else [])\<rparr>"

definition middle_three :: selection where
  "middle_three
     = fst (constructor (Some (no_args\<lparr>arg_items := Some [3, 2, 4]\<rparr>)) fresh_world)"


section \<open>An invariant of moving forwards\<close>



section \<open>Properties of double arithmetic\<close>

lemma exponent_bounds:
  assumes "0 < a"
  shows "2 powi exponent a \<le> a" and "a < 2 powi (exponent a + 1)"
proof -
  have "2 powi exponent a \<le> a \<and> a < 2 powi (exponent a + 1)"
  proof (cases "1 \<le> a")
    case True
    define n where "n = \<lfloor>a\<rfloor>"
    have n: "0 < n" "of_int n \<le> a" "a < of_int n + 1"
      using True by (simp_all add: n_def)
    from bitlen_bounds [OF n(1)] have b: "2 ^ nat (bitlen n - 1) \<le> n" "n < 2 ^ nat (bitlen n)"
      by simp_all
    have bl: "1 \<le> bitlen n" using n(1) by (simp add: bitlen_alt_def)
    have e: "exponent a = bitlen n - 1" using True by (simp add: exponent_def n_def)
    have "(2::real) powi (bitlen n - 1) = 2 ^ nat (bitlen n - 1)"
      using bl by (simp add: power_int_def)
    also have "\<dots> \<le> of_int n" using b(1) by (metis of_int_le_iff of_int_numeral of_int_power)
    finally have lo: "2 powi (bitlen n - 1) \<le> a" using n(2) by linarith
    have "n + 1 \<le> 2 ^ nat (bitlen n)" using b(2) by simp
    then have "real_of_int (n + 1) \<le> real_of_int (2 ^ nat (bitlen n))" by (rule of_int_le_iff [THEN iffD2])
    then have "of_int n + 1 \<le> (2::real) ^ nat (bitlen n)" by simp
    also have "\<dots> = 2 powi (bitlen n)" using bl by (simp add: power_int_def)
    finally have "a < 2 powi (bitlen n)" using n(3) by linarith
    with lo e show ?thesis by simp
  next
    case False
    define k where "k = \<lceil>1 / a\<rceil> - 1"
    have inv: "1 < 1 / a" using False assms by simp
    have c: "of_int \<lceil>1 / a\<rceil> - 1 < 1 / a" "1 / a \<le> of_int \<lceil>1 / a\<rceil>"
      using ceiling_correct [of "1 / a"] by simp_all
    have rk: "real_of_int k = of_int \<lceil>1 / a\<rceil> - 1" by (simp add: k_def)
    have "1 < real_of_int \<lceil>1 / a\<rceil>" using inv c(2) by linarith
    then have "1 < \<lceil>1 / a\<rceil>" by linarith
    then have k0: "0 < k" by (simp add: k_def)
    have k: "0 < k" "of_int k < 1 / a" "1 / a \<le> of_int k + 1"
      using k0 c rk by simp_all
    from bitlen_bounds [OF k(1)] have b: "2 ^ nat (bitlen k - 1) \<le> k" "k < 2 ^ nat (bitlen k)"
      by simp_all
    have bl: "1 \<le> bitlen k" using k(1) by (simp add: bitlen_alt_def)
    have e: "exponent a = - bitlen k" using False by (simp add: exponent_def k_def)
    have "k + 1 \<le> 2 ^ nat (bitlen k)" using b(2) by simp
    then have "real_of_int (k + 1) \<le> real_of_int (2 ^ nat (bitlen k))" by (rule of_int_le_iff [THEN iffD2])
    then have "of_int k + 1 \<le> (2::real) ^ nat (bitlen k)" by simp
    also have "\<dots> = 2 powi (bitlen k)" using bl by (simp add: power_int_def)
    finally have up: "1 / a \<le> 2 powi (bitlen k)" using k(3) by linarith
    have "(2::real) powi (bitlen k - 1) = 2 ^ nat (bitlen k - 1)"
      using bl by (simp add: power_int_def)
    also have "\<dots> \<le> of_int k" using b(1) by (metis of_int_le_iff of_int_numeral of_int_power)
    finally have lo: "2 powi (bitlen k - 1) < 1 / a" using k(2) by linarith
    have p: "0 < (2::real) powi (bitlen k)" "0 < (2::real) powi (bitlen k - 1)" by simp_all
    have "2 powi (- bitlen k) \<le> a"
      using up assms p(1) by (simp add: power_int_minus field_simps)
    moreover have "a < 2 powi (- bitlen k + 1)"
    proof -
      have "a < 1 / 2 powi (bitlen k - 1)"
        using lo assms p(2) by (simp add: field_simps)
      also have "\<dots> = 2 powi (- (bitlen k - 1))" by (simp only: power_int_minus_divide)
      finally show ?thesis by (simp add: algebra_simps)
    qed
    ultimately show ?thesis using e by simp
  qed
  then show "2 powi exponent a \<le> a" and "a < 2 powi (exponent a + 1)" by simp_all
qed

lemma round_half_even_error: "\<bar>of_int (round_half_even t) - t\<bar> \<le> 1 / 2"
  unfolding round_half_even_def Let_def by (auto simp: abs_if) linarith+


lemma rnd_normal:
  assumes "normal x"
  shows "\<bar>rnd x - x\<bar> \<le> 2 powi (- 53) * \<bar>x\<bar>"
proof -
  define a where "a = \<bar>x\<bar>"
  have a: "2 powi (- 1022) \<le> a" "a < 2 powi 1023" using assms by (simp_all add: normal_def a_def)
  have "0 < (2::real) powi (- 1022)" by (rule zero_less_power_int) simp
  with a(1) have a0: "0 < a" by linarith
  then have x0: "x \<noteq> 0" by (auto simp: a_def)
  define e where "e = exponent a"
  have eb: "2 powi e \<le> a" "a < 2 powi (e + 1)"
    unfolding e_def using exponent_bounds [OF a0] by simp_all
  have "- 1022 \<le> e"
  proof (rule ccontr)
    assume "\<not> - 1022 \<le> e"
    then have "e + 1 \<le> - 1022" by simp
    then have "(2::real) powi (e + 1) \<le> 2 powi (- 1022)" by (rule power_int_increasing) simp
    with eb(2) a(1) show False by linarith
  qed
  then have me: "max (- 1022) e = e" by simp
  define ulp :: real where "ulp = 2 powi (e - 52)"
  have ulp0: "0 < ulp" by (simp add: ulp_def)
  define m where "m = round_half_even (a / ulp)"
  have r: "rnd x = sgn x * (of_int m * ulp)"
    using x0 me by (simp add: rnd_def Let_def a_def [symmetric] e_def [symmetric]
        ulp_def [symmetric] m_def [symmetric])
  have "\<bar>of_int m - a / ulp\<bar> \<le> 1 / 2" unfolding m_def by (rule round_half_even_error)
  then have "\<bar>of_int m - a / ulp\<bar> * ulp \<le> 1 / 2 * ulp"
    using ulp0 by (intro mult_right_mono) simp_all
  moreover have "\<bar>of_int m - a / ulp\<bar> * ulp = \<bar>of_int m * ulp - a\<bar>"
  proof -
    have "\<bar>of_int m - a / ulp\<bar> * ulp = \<bar>(of_int m - a / ulp) * ulp\<bar>"
      using ulp0 by (simp add: abs_mult)
    also have "(of_int m - a / ulp) * ulp = of_int m * ulp - a"
      using ulp0 by (simp add: field_simps)
    finally show ?thesis .
  qed
  ultimately have err: "\<bar>of_int m * ulp - a\<bar> \<le> ulp / 2" by simp
  have "ulp / 2 = 2 powi e * 2 powi (- 53)"
  proof -
    have "(2::real) powi (e - 52) = 2 powi (e + (- 53) + 1)" by simp
    also have "\<dots> = 2 powi (e + (- 53)) * 2" by (rule power_int_add_1) simp
    also have "\<dots> = 2 powi e * 2 powi (- 53) * 2" by (subst power_int_add) simp_all
    finally show ?thesis by (simp add: ulp_def)
  qed
  also have "\<dots> \<le> a * 2 powi (- 53)" using eb(1) by (intro mult_right_mono) simp_all
  finally have u: "ulp / 2 \<le> 2 powi (- 53) * a" by (simp add: mult.commute)
  have "x = sgn x * a" by (simp add: a_def sgn_mult_abs)
  then have "rnd x - x = sgn x * (of_int m * ulp - a)" by (simp add: r right_diff_distrib)
  then have "\<bar>rnd x - x\<bar> = \<bar>of_int m * ulp - a\<bar>" using x0 by (simp add: abs_mult abs_sgn_eq)
  with err u show ?thesis by (simp add: a_def)
qed

lemma fl_normal:
  assumes "normal x"
  obtains d where "\<bar>d\<bar> \<le> unit_roundoff" "fl x = Fin (x * (1 + d))"
proof -
  have u: "unit_roundoff = 1 / 9007199254740992" by (simp add: unit_roundoff_def)
  have "0 < (2::real) powi (- 1022)" by (rule zero_less_power_int) simp
  with assms have x0: "x \<noteq> 0" by (auto simp: normal_def)
  define d where "d = (rnd x - x) / x"
  have rx: "rnd x = x * (1 + d)" using x0 by (simp add: d_def field_simps)
  have "\<bar>d\<bar> = \<bar>rnd x - x\<bar> / \<bar>x\<bar>" by (simp add: d_def)
  also have "\<dots> \<le> (2 powi (- 53) * \<bar>x\<bar>) / \<bar>x\<bar>"
    using rnd_normal [OF assms] by (intro divide_right_mono) simp_all
  also have "\<dots> = unit_roundoff" using x0 by (simp add: unit_roundoff_def)
  finally have d: "\<bar>d\<bar> \<le> unit_roundoff" .
  then have d1: "0 < 1 + d" "1 + d < 2" using u by (auto simp: abs_le_iff)
  have "\<bar>rnd x\<bar> = \<bar>x\<bar> * (1 + d)" using d1 by (simp add: rx abs_mult)
  also have "\<dots> < 2 powi 1023 * 2"
    using assms d1 by (intro mult_strict_mono) (simp_all add: normal_def)
  also have "\<dots> = 2 powi (1023 + 1)" by (rule power_int_add_1 [symmetric]) simp
  finally have lt: "\<bar>rnd x\<bar> < 2 powi 1024" by simp
  have nz: "rnd x \<noteq> 0" using x0 d1 by (simp add: rx)
  have "fl x = Fin (x * (1 + d))" using lt nz by (simp add: fl_def Let_def rx)
  with d show thesis by (rule that)
qed


lemma exponent_unique:
  assumes "0 < a" "2 powi e \<le> a" "a < 2 powi (e + 1)"
  shows "exponent a = e"
proof (rule ccontr)
  assume ne: "exponent a \<noteq> e"
  note b = exponent_bounds [OF assms(1)]
  show False
  proof (cases "exponent a < e")
    case True
    then have "(2::real) powi (exponent a + 1) \<le> 2 powi e"
      by (intro power_int_increasing) simp_all
    with b(2) assms(2) show False by linarith
  next
    case False
    with ne have "(2::real) powi (e + 1) \<le> 2 powi exponent a"
      by (intro power_int_increasing) simp_all
    with b(1) assms(3) show False by linarith
  qed
qed

lemma normal_between:
  assumes "2 powi e \<le> \<bar>x\<bar>" "\<bar>x\<bar> < 2 powi (e + 1)" "- 1022 \<le> e" "e < 1023"
  shows "normal x"
proof -
  have "(2::real) powi (- 1022) \<le> 2 powi e" using assms(3) by (intro power_int_increasing) simp_all
  moreover have "(2::real) powi (e + 1) \<le> 2 powi 1023"
    using assms(4) by (intro power_int_increasing) simp_all
  ultimately show ?thesis using assms(1,2) by (simp add: normal_def)
qed

lemma fl_normal_rnd:
  assumes "normal x"
  shows "fl x = Fin (rnd x)"
proof -
  from fl_normal [OF assms] obtain d where d: "\<bar>d\<bar> \<le> unit_roundoff" "fl x = Fin (x * (1 + d))"
    by blast
  have "0 < (2::real) powi (- 1022)" by (rule zero_less_power_int) simp
  with assms have x0: "x \<noteq> 0" by (auto simp: normal_def)
  have "unit_roundoff = 1 / 9007199254740992" by (simp add: unit_roundoff_def)
  with d(1) have "0 < 1 + d" by (auto simp: abs_le_iff)
  with x0 have "x * (1 + d) \<noteq> 0" by simp
  with d(2) show ?thesis by (auto simp: fl_def Let_def split: if_splits)
qed

text \<open>The rounding of a number whose binary exponent is known.\<close>

lemma fl_eval:
  assumes "2 powi e \<le> \<bar>x\<bar>" "\<bar>x\<bar> < 2 powi (e + 1)" "- 1022 \<le> e" "e < 1023"
  shows "fl x = Fin (sgn x * (of_int (round_half_even (\<bar>x\<bar> / 2 powi (e - 52))) * 2 powi (e - 52)))"
proof -
  have n: "normal x" using assms by (rule normal_between)
  have "0 < (2::real) powi e" by (rule zero_less_power_int) simp
  with assms(1) have a0: "0 < \<bar>x\<bar>" by linarith
  then have x0: "x \<noteq> 0" by auto
  have "exponent \<bar>x\<bar> = e" using a0 assms(1,2) by (rule exponent_unique)
  then have "rnd x = sgn x * (of_int (round_half_even (\<bar>x\<bar> / 2 powi (e - 52))) * 2 powi (e - 52))"
    using x0 assms(3) by (simp add: rnd_def Let_def max_def)
  with fl_normal_rnd [OF n] show ?thesis by simp
qed

lemma round_half_even_ge:
  assumes "of_int n \<le> t"
  shows "n \<le> round_half_even t"
proof -
  have "n \<le> \<lfloor>t\<rfloor>" using assms by (simp add: le_floor_iff)
  then show ?thesis by (auto simp: round_half_even_def Let_def)
qed

lemma fl_overflow:
  assumes "2 powi 1024 \<le> \<bar>x\<bar>"
  shows "fl x = (if 0 < x then PosInf else NegInf)"
proof -
  define a where "a = \<bar>x\<bar>"
  have "0 < (2::real) powi 1024" by (rule zero_less_power_int) simp
  with assms have a0: "0 < a" unfolding a_def by linarith
  then have x0: "x \<noteq> 0" by (auto simp: a_def)
  define e where "e = exponent a"
  have eb: "2 powi e \<le> a" "a < 2 powi (e + 1)"
    unfolding e_def using exponent_bounds [OF a0] by simp_all
  have e1024: "1024 \<le> e"
  proof (rule ccontr)
    assume "\<not> 1024 \<le> e"
    then have "e + 1 \<le> 1024" by simp
    then have "(2::real) powi (e + 1) \<le> 2 powi 1024" by (rule power_int_increasing) simp
    with eb(2) assms show False by (simp add: a_def)
  qed
  then have me: "max (- 1022) e = e" by simp
  define ulp :: real where "ulp = 2 powi (e - 52)"
  have ulp0: "0 < ulp" by (simp add: ulp_def)
  define m where "m = round_half_even (a / ulp)"
  have r: "rnd x = sgn x * (of_int m * ulp)"
    using x0 me by (simp add: rnd_def Let_def a_def [symmetric] e_def [symmetric]
        ulp_def [symmetric] m_def [symmetric])
  have split: "(2::real) powi e = 2 powi 52 * ulp"
  proof -
    have "(2::real) powi e = 2 powi (52 + (e - 52))" by simp
    also have "\<dots> = 2 powi 52 * 2 powi (e - 52)" by (rule power_int_add) simp
    finally show ?thesis by (simp add: ulp_def)
  qed
  have "real_of_int (2 ^ 52) * ulp \<le> a" using eb(1) split by simp
  then have "real_of_int (2 ^ 52) \<le> a / ulp" using ulp0 by (simp add: field_simps)
  then have "2 ^ 52 \<le> m" unfolding m_def by (rule round_half_even_ge)
  then have "real_of_int (2 ^ 52) \<le> of_int m" by (rule of_int_le_iff [THEN iffD2])
  then have "2 powi 52 * ulp \<le> of_int m * ulp" using ulp0 by (intro mult_right_mono) simp_all
  with split have "2 powi e \<le> of_int m * ulp" by simp
  moreover have "(2::real) powi 1024 \<le> 2 powi e" using e1024 by (rule power_int_increasing) simp
  ultimately have big: "2 powi 1024 \<le> of_int m * ulp" by linarith
  then have pos: "0 \<le> of_int m * ulp" using \<open>0 < (2::real) powi 1024\<close> by linarith
  have "\<bar>rnd x\<bar> = \<bar>of_int m * ulp\<bar>" using x0 by (simp add: r abs_mult abs_sgn_eq)
  with pos have "\<bar>rnd x\<bar> = of_int m * ulp" by simp
  with big show ?thesis using x0 by (simp add: fl_def Let_def)
qed

lemma moderate_nonzero: "moderate n x \<Longrightarrow> x \<noteq> 0"
proof
  assume w: "moderate n x" and "x = 0"
  have "0 < (2::real) powi (- n)" by (rule zero_less_power_int) simp
  with w \<open>x = 0\<close> show False by (simp add: moderate_def)
qed

lemma moderate_mult:
  assumes "moderate m x" "moderate n y"
  shows "moderate (m + n) (x * y)"
proof -
  have "2 powi (- m) * 2 powi (- n) \<le> \<bar>x\<bar> * \<bar>y\<bar>"
    using assms by (intro mult_mono) (simp_all add: moderate_def)
  moreover have "\<bar>x\<bar> * \<bar>y\<bar> \<le> 2 powi m * 2 powi n"
    using assms by (intro mult_mono) (simp_all add: moderate_def)
  moreover have "(2::real) powi (- (m + n)) = 2 powi (- m) * 2 powi (- n)"
    using power_int_add [of "2::real" "- m" "- n"] by simp
  moreover have "(2::real) powi (m + n) = 2 powi m * 2 powi n"
    by (rule power_int_add) simp
  ultimately show ?thesis by (simp add: moderate_def abs_mult)
qed

lemma moderate_inverse:
  assumes "moderate n y"
  shows "moderate n (1 / y)"
proof -
  have y0: "y \<noteq> 0" using assms by (rule moderate_nonzero)
  have p: "0 < (2::real) powi n" "0 < (2::real) powi (- n)" by simp_all
  have inv: "(2::real) powi (- n) = 1 / 2 powi n" by (rule power_int_minus_divide)
  have a: "0 < \<bar>y\<bar>" using y0 by simp
  have "1 / 2 powi n \<le> 1 / \<bar>y\<bar>"
    using assms a by (intro divide_left_mono) (simp_all add: moderate_def)
  moreover have "1 / \<bar>y\<bar> \<le> 1 / (1 / 2 powi n)"
    using assms a p by (intro divide_left_mono) (simp_all add: moderate_def inv)
  ultimately show ?thesis by (simp add: moderate_def inv)
qed

lemma moderate_divide:
  assumes "moderate m x" "moderate n y"
  shows "moderate (m + n) (x / y)"
  using moderate_mult [OF assms(1) moderate_inverse [OF assms(2)]] by simp

lemma moderate_normal:
  assumes "moderate n x" "n \<le> 1022"
  shows "normal x"
proof -
  have "(2::real) powi (- 1022) \<le> 2 powi (- n)"
    using assms(2) by (intro power_int_increasing) simp_all
  moreover have "(2::real) powi n \<le> 2 powi 1022"
    using assms(2) by (intro power_int_increasing) simp_all
  moreover have "(2::real) powi 1022 < 2 powi 1023"
    by (intro power_int_strict_increasing) simp_all
  ultimately show ?thesis using assms(1) by (simp add: moderate_def normal_def)
qed

text \<open>A rounded operation on numbers of moderate size.\<close>

lemma fl_moderate:
  assumes "moderate n x" "n \<le> 1022"
  obtains d where "\<bar>d\<bar> \<le> unit_roundoff" "fl x = Fin (x * (1 + d))" "moderate (n + 1) (x * (1 + d))"
proof -
  from fl_normal [OF moderate_normal [OF assms]] obtain d
    where d: "\<bar>d\<bar> \<le> unit_roundoff" "fl x = Fin (x * (1 + d))" by blast
  have "unit_roundoff = 1 / 9007199254740992" by (simp add: unit_roundoff_def)
  with d(1) have "1 / 2 \<le> 1 + d" "1 + d \<le> 2" by (auto simp: abs_le_iff)
  then have "moderate 1 (1 + d)" by (simp add: moderate_def)
  with assms(1) have "moderate (n + 1) (x * (1 + d))" by (rule moderate_mult)
  with d show thesis by (rule that)
qed

lemma num_mul_Fin: "a \<noteq> 0 \<Longrightarrow> b \<noteq> 0 \<Longrightarrow> num_mul (Fin a) (Fin b) = fl (a * b)"
  by (simp add: num_mul_def)

lemma num_div_Fin: "a \<noteq> 0 \<Longrightarrow> b \<noteq> 0 \<Longrightarrow> num_div (Fin a) (Fin b) = fl (a / b)"
  by (simp add: num_div_def)

lemma roundoff_ratio:
  assumes "\<bar>d1\<bar> \<le> unit_roundoff" "\<bar>d2\<bar> \<le> unit_roundoff" "\<bar>d3\<bar> \<le> unit_roundoff"
    "\<bar>d4\<bar> \<le> unit_roundoff"
  shows "\<bar>(1 + d3) * (1 + d4) / ((1 + d1) * (1 + d2)) - 1\<bar> \<le> 2 powi (- 50)"
proof -
  define u :: real where "u = 1 / 9007199254740992"
  define eps :: real where "eps = 1 / 1125899906842624"
  have u: "unit_roundoff = u" by (simp add: unit_roundoff_def u_def)
  have e: "(2::real) powi (- 50) = eps" by (simp add: eps_def)
  have b: "1 - u \<le> 1 + d1" "1 + d1 \<le> 1 + u" "1 - u \<le> 1 + d2" "1 + d2 \<le> 1 + u"
    "1 - u \<le> 1 + d3" "1 + d3 \<le> 1 + u" "1 - u \<le> 1 + d4" "1 + d4 \<le> 1 + u"
    using assms unfolding u by (auto simp: abs_le_iff)
  have up: "0 < 1 - u" by (simp add: u_def)
  have ep: "0 \<le> 1 + eps" "0 \<le> 1 - eps" by (simp_all add: eps_def)
  define N where "N = (1 + d3) * (1 + d4)"
  define D where "D = (1 + d1) * (1 + d2)"
  have N: "(1 - u) * (1 - u) \<le> N" "N \<le> (1 + u) * (1 + u)"
    unfolding N_def using b up by (auto intro!: mult_mono)
  have D: "(1 - u) * (1 - u) \<le> D" "D \<le> (1 + u) * (1 + u)"
    unfolding D_def using b up by (auto intro!: mult_mono)
  have "0 < (1 - u) * (1 - u)" using up by (simp add: zero_less_mult_iff)
  with D(1) have D0: "0 < D" by linarith
  have c1: "(1 + u) * (1 + u) \<le> (1 + eps) * ((1 - u) * (1 - u))"
    by (simp add: u_def eps_def)
  have c2: "(1 - eps) * ((1 + u) * (1 + u)) \<le> (1 - u) * (1 - u)"
    by (simp add: u_def eps_def)
  have "(1 + eps) * ((1 - u) * (1 - u)) \<le> (1 + eps) * D"
    using D(1) ep(1) by (rule mult_left_mono)
  with N(2) c1 have "N \<le> (1 + eps) * D" by linarith
  then have hi: "N / D \<le> 1 + eps" using D0 by (simp add: pos_divide_le_eq)
  have "(1 - eps) * D \<le> (1 - eps) * ((1 + u) * (1 + u))"
    using D(2) ep(2) by (rule mult_left_mono)
  with N(1) c2 have "(1 - eps) * D \<le> N" by linarith
  then have lo: "1 - eps \<le> N / D" using D0 by (simp add: pos_le_divide_eq)
  from hi lo have "\<bar>N / D - 1\<bar> \<le> eps" by (intro abs_leI) linarith+
  then show ?thesis by (simp only: N_def D_def e)
qed

text \<open>
  The scale computed by the width setter and the width read back from it, for numbers
  of moderate size.
\<close>

lemma width_round_trip:
  assumes bw: "moderate 200 bw" and k: "moderate 200 k" and W: "moderate 200 W" and "0 < W"
  obtains k' r where
    "num_div (Fin k) (num_div (num_mul (Fin bw) (Fin k)) (Fin W)) = Fin k'"
    "num_mul (Fin bw) (Fin k') = Fin r"
    "\<bar>r - W\<bar> \<le> 2 powi (- 50) * W"
proof -
  note nz = moderate_nonzero
  have "moderate (200 + 200) (bw * k)" using bw k by (rule moderate_mult)
  then have "moderate 400 (bw * k)" by simp
  from fl_moderate [OF this] obtain d1
    where d1: "\<bar>d1\<bar> \<le> unit_roundoff" "fl (bw * k) = Fin (bw * k * (1 + d1))"
      "moderate (400 + 1) (bw * k * (1 + d1))" by auto
  define p where "p = bw * k * (1 + d1)"
  have p: "num_mul (Fin bw) (Fin k) = Fin p" "moderate 401 p"
    using d1 nz [OF bw] nz [OF k] by (simp_all add: num_mul_Fin p_def)
  have "moderate (401 + 200) (p / W)" using p(2) W by (rule moderate_divide)
  then have "moderate 601 (p / W)" by simp
  from fl_moderate [OF this] obtain d2
    where d2: "\<bar>d2\<bar> \<le> unit_roundoff" "fl (p / W) = Fin (p / W * (1 + d2))"
      "moderate (601 + 1) (p / W * (1 + d2))" by auto
  define d where "d = p / W * (1 + d2)"
  have d: "num_div (Fin p) (Fin W) = Fin d" "moderate 602 d"
    using d2 nz [OF p(2)] nz [OF W] by (simp_all add: num_div_Fin d_def)
  have "moderate (200 + 602) (k / d)" using k d(2) by (rule moderate_divide)
  then have "moderate 802 (k / d)" by simp
  from fl_moderate [OF this] obtain d3
    where d3: "\<bar>d3\<bar> \<le> unit_roundoff" "fl (k / d) = Fin (k / d * (1 + d3))"
      "moderate (802 + 1) (k / d * (1 + d3))" by auto
  define k' where "k' = k / d * (1 + d3)"
  have k': "num_div (Fin k) (Fin d) = Fin k'" "moderate 803 k'"
    using d3 nz [OF k] nz [OF d(2)] by (simp_all add: num_div_Fin k'_def)
  have "moderate (200 + 803) (bw * k')" using bw k'(2) by (rule moderate_mult)
  then have "moderate 1003 (bw * k')" by simp
  from fl_moderate [OF this] obtain d4
    where d4: "\<bar>d4\<bar> \<le> unit_roundoff" "fl (bw * k') = Fin (bw * k' * (1 + d4))" by auto
  define r where "r = bw * k' * (1 + d4)"
  have r: "num_mul (Fin bw) (Fin k') = Fin r"
    using d4 nz [OF bw] nz [OF k'(2)] by (simp add: num_mul_Fin r_def)
  have u: "unit_roundoff = 1 / 9007199254740992" by (simp add: unit_roundoff_def)
  have pos: "1 + d1 \<noteq> 0" "1 + d2 \<noteq> 0"
    using d1(1) d2(1) unfolding u by (auto simp: abs_le_iff)
  define D where "D = (1 + d1) * (1 + d2)"
  have D0: "D \<noteq> 0" using pos by (simp add: D_def)
  have "d = bw * k * D / W" by (simp add: d_def p_def D_def)
  then have "k / d = W / (bw * D)" using nz [OF bw] nz [OF k] nz [OF W] D0 by simp
  then have "r = bw * (W / (bw * D) * (1 + d3)) * (1 + d4)" by (simp add: r_def k'_def)
  also have "\<dots> = W * ((1 + d3) * (1 + d4) / D)" using nz [OF bw] D0 by simp
  finally have "r = W * ((1 + d3) * (1 + d4) / ((1 + d1) * (1 + d2)))" by (simp only: D_def)
  then have "r - W = W * ((1 + d3) * (1 + d4) / ((1 + d1) * (1 + d2)) - 1)"
    by (simp add: right_diff_distrib)
  then have "\<bar>r - W\<bar> = W * \<bar>(1 + d3) * (1 + d4) / ((1 + d1) * (1 + d2)) - 1\<bar>"
    using \<open>0 < W\<close> by (simp add: abs_mult)
  also have "\<dots> \<le> W * 2 powi (- 50)"
    using roundoff_ratio [OF d1(1) d2(1) d3(1) d4(1)] \<open>0 < W\<close> by (intro mult_left_mono) simp_all
  finally have "\<bar>r - W\<bar> \<le> 2 powi (- 50) * W" by (simp add: mult.commute)
  moreover have "num_div (Fin k) (num_div (num_mul (Fin bw) (Fin k)) (Fin W)) = Fin k'"
    by (simp add: p(1) d(1) k'(1))
  ultimately show thesis using r by (intro that)
qed

text \<open>Some operations evaluated.\<close>

lemma fl_5: "fl 5 = Fin 5"
  using fl_eval [of 2 5] by (simp add: round_half_even_def)

lemma fl_10: "fl 10 = Fin 10"
  using fl_eval [of 3 10] by (simp add: round_half_even_def)

lemma fl_20: "fl 20 = Fin 20"
  using fl_eval [of 4 20] by (simp add: round_half_even_def)

lemma fl_10_13: "fl (10 / 13) = Fin (6928614811339225 / 9007199254740992)"
  using fl_eval [of "- 1" "10 / 13"] by (simp add: round_half_even_def)

lemma fl_13_10:
  "fl (1 / (6928614811339225 / 9007199254740992)) = Fin (1463669878895411 / 1125899906842624)"
  using fl_eval [of 0 "1 / (6928614811339225 / 9007199254740992)"]
  by (simp add: round_half_even_def)

lemma fl_almost_13:
  "fl (10 * (1463669878895411 / 1125899906842624)) = Fin (7318349394477055 / 562949953421312)"
  using fl_eval [of 3 "10 * (1463669878895411 / 1125899906842624)"]
  by (simp add: round_half_even_def)

lemma fl_overflows: "fl (10 * 2 ^ 1023) = PosInf"
  using fl_overflow [of "10 * 2 ^ 1023"] by simp

lemma rnd_eval:
  assumes "2 powi e \<le> \<bar>x\<bar>" "\<bar>x\<bar> < 2 powi (e + 1)" "- 1022 \<le> e"
  shows "rnd x = sgn x * (of_int (round_half_even (\<bar>x\<bar> / 2 powi (e - 52))) * 2 powi (e - 52))"
proof -
  have "0 < (2::real) powi e" by (rule zero_less_power_int) simp
  with assms(1) have a0: "0 < \<bar>x\<bar>" by linarith
  then have x0: "x \<noteq> 0" by auto
  have "exponent \<bar>x\<bar> = e" using a0 assms(1,2) by (rule exponent_unique)
  then show ?thesis using x0 assms(3) by (simp add: rnd_def Let_def max_def)
qed

lemma rnd_examples:
  "rnd 0 = 0"
  "rnd 1 = 1"
  "rnd (1 / 9007199254740992) = 1 / 9007199254740992"
  "rnd (4503599627370497 / 4503599627370496) = 4503599627370497 / 4503599627370496"
  "rnd (9007199254740993 / 9007199254740992) = 1"
  using rnd_eval [of 0 1] rnd_eval [of "- 53" "1 / 9007199254740992"]
    rnd_eval [of 0 "4503599627370497 / 4503599627370496"]
    rnd_eval [of 0 "9007199254740993 / 9007199254740992"]
  by (simp_all add: rnd_def round_half_even_def)

lemma num_add_0_5: "num_add (Fin 0) (Fin 5) = Fin 5"
  using fl_5 by (simp add: num_add_def)

lemma width_13_steps:
  "num_mul (Fin 10) (Fin 1) = Fin 10"
  "num_div (Fin 10) (Fin 13) = Fin (6928614811339225 / 9007199254740992)"
  "num_div (Fin 1) (Fin (6928614811339225 / 9007199254740992))
     = Fin (1463669878895411 / 1125899906842624)"
  "num_mul (Fin 10) (Fin (1463669878895411 / 1125899906842624))
     = Fin (7318349394477055 / 562949953421312)"
  using fl_10 fl_10_13 fl_13_10 fl_almost_13 by (simp_all add: num_mul_def num_div_def)

lemma width_20_steps:
  "num_div (Fin 10) (Fin 20) = Fin (1 / 2)"
  "num_div (Fin 1) (Fin (1 / 2)) = Fin 2"
  "num_mul (Fin 10) (Fin 2) = Fin 20"
  using fl_eval [of "- 1" "1 / 2"] fl_eval [of 1 2] fl_20
  by (simp_all add: num_mul_def num_div_def round_half_even_def)

lemma width_zero_steps:
  "num_mul (Fin 0) (Fin 1) = Fin 0"
  "num_div (Fin 0) (Fin 5) = Fin 0"
  "num_div (Fin 1) (Fin 0) = PosInf"
  "num_mul (Fin 0) (Fin 0) = Fin 0"
  by (simp_all add: num_mul_def num_div_def)

lemma width_huge_steps:
  "num_mul (Fin 10) (Fin (2 ^ 1023)) = PosInf"
  "num_div PosInf (Fin 5) = PosInf"
  "num_div (Fin (2 ^ 1023)) PosInf = Fin 0"
  "num_mul (Fin 10) (Fin 0) = Fin 0"
  using fl_overflows by (simp_all add: num_mul_def num_div_def)


section \<open>Properties of the bounds helper\<close>

lemma unite_edges:
  "rx (unite a b) = min (rx a) (rx b)"
  "ry (unite a b) = min (ry a) (ry b)"
  "right_edge (unite a b) = max (right_edge a) (right_edge b)"
  "bottom_edge (unite a b) = max (bottom_edge a) (bottom_edge b)"
  by (simp_all add: unite_def right_edge_def bottom_edge_def Let_def)

lemma rectangle_eq_edges:
  fixes a b :: rectangle
  assumes "rx a = rx b" "ry a = ry b" "right_edge a = right_edge b"
    "bottom_edge a = bottom_edge b"
  shows "a = b"
  using assms by (cases a, cases b) (simp add: right_edge_def bottom_edge_def)

lemma foldl_unite_edges:
  "rx (foldl (\<lambda>b j. unite b (f j)) r js) = fold min (map (rx \<circ> f) js) (rx r)"
  "ry (foldl (\<lambda>b j. unite b (f j)) r js) = fold min (map (ry \<circ> f) js) (ry r)"
  "right_edge (foldl (\<lambda>b j. unite b (f j)) r js)
     = fold max (map (right_edge \<circ> f) js) (right_edge r)"
  "bottom_edge (foldl (\<lambda>b j. unite b (f j)) r js)
     = fold max (map (bottom_edge \<circ> f) js) (bottom_edge r)"
  by (induction js arbitrary: r; simp add: unite_edges min.commute max.commute)+

lemma fold_min_Min:
  fixes g :: "'a \<Rightarrow> real"
  shows "fold min (map g js) (g i) = Min (g ` set (i # js))"
proof -
  have "Min (set (map g (i # js))) = fold min (map g js) (g i)"
    by (simp only: list.map Min.set_eq_fold)
  then show ?thesis by simp
qed

lemma fold_max_Max:
  fixes g :: "'a \<Rightarrow> real"
  shows "fold max (map g js) (g i) = Max (g ` set (i # js))"
proof -
  have "Max (set (map g (i # js))) = fold max (map g js) (g i)"
    by (simp only: list.map Max.set_eq_fold)
  then show ?thesis by simp
qed

lemma getBoundsOfItems_edges:
  assumes "is \<noteq> []"
  shows "rx (getBoundsOfItems f is) = Min ((rx \<circ> f) ` set is)"
    and "ry (getBoundsOfItems f is) = Min ((ry \<circ> f) ` set is)"
    and "right_edge (getBoundsOfItems f is) = Max ((right_edge \<circ> f) ` set is)"
    and "bottom_edge (getBoundsOfItems f is) = Max ((bottom_edge \<circ> f) ` set is)"
proof -
  from assms obtain i js where is_def: "is = i # js" by (cases "is") auto
  show "rx (getBoundsOfItems f is) = Min ((rx \<circ> f) ` set is)"
    unfolding is_def getBoundsOfItems.simps foldl_unite_edges
    using fold_min_Min [of "rx \<circ> f" js i] by simp
  show "ry (getBoundsOfItems f is) = Min ((ry \<circ> f) ` set is)"
    unfolding is_def getBoundsOfItems.simps foldl_unite_edges
    using fold_min_Min [of "ry \<circ> f" js i] by simp
  show "right_edge (getBoundsOfItems f is) = Max ((right_edge \<circ> f) ` set is)"
    unfolding is_def getBoundsOfItems.simps foldl_unite_edges
    using fold_max_Max [of "right_edge \<circ> f" js i] by simp
  show "bottom_edge (getBoundsOfItems f is) = Max ((bottom_edge \<circ> f) ` set is)"
    unfolding is_def getBoundsOfItems.simps foldl_unite_edges
    using fold_max_Max [of "bottom_edge \<circ> f" js i] by simp
qed

lemma getBoundsOfItems_set_eq:
  assumes "set xs = set ys"
  shows "getBoundsOfItems f xs = getBoundsOfItems f ys"
proof (cases "xs = []")
  case True
  with assms show ?thesis by simp
next
  case False
  with assms have ne: "xs \<noteq> []" "ys \<noteq> []" by auto
  show ?thesis
    by (rule rectangle_eq_edges)
      (simp_all add: getBoundsOfItems_edges [OF ne(1)] getBoundsOfItems_edges [OF ne(2)] assms)
qed

lemma unite_doubles_corner:
  "rx (unite_doubles a b) = min (rx a) (rx b)"
  "ry (unite_doubles a b) = min (ry a) (ry b)"
  by (simp_all add: unite_doubles_def Let_def)

lemma unite_doubles_commute: "unite_doubles a b = unite_doubles b a"
  by (simp add: unite_doubles_def Let_def min.commute max.commute)

lemma foldl_unite_doubles_corner:
  "rx (foldl (\<lambda>b j. unite_doubles b (f j)) r js) = fold min (map (rx \<circ> f) js) (rx r)"
  "ry (foldl (\<lambda>b j. unite_doubles b (f j)) r js) = fold min (map (ry \<circ> f) js) (ry r)"
  by (induction js arbitrary: r; simp add: unite_doubles_corner min.commute)+

lemma getBoundsOfItems_doubles_corner:
  assumes "is \<noteq> []"
  shows "rx (getBoundsOfItems_doubles f is) = Min ((rx \<circ> f) ` set is)"
    and "ry (getBoundsOfItems_doubles f is) = Min ((ry \<circ> f) ` set is)"
proof -
  from assms obtain i js where is_def: "is = i # js" by (cases "is") auto
  show "rx (getBoundsOfItems_doubles f is) = Min ((rx \<circ> f) ` set is)"
    unfolding is_def getBoundsOfItems_doubles.simps foldl_unite_doubles_corner
    using fold_min_Min [of "rx \<circ> f" js i] by simp
  show "ry (getBoundsOfItems_doubles f is) = Min ((ry \<circ> f) ` set is)"
    unfolding is_def getBoundsOfItems_doubles.simps foldl_unite_doubles_corner
    using fold_min_Min [of "ry \<circ> f" js i] by simp
qed

lemma getBoundsOfItems_doubles_corner_set_eq:
  assumes "set xs = set ys"
  shows "rx (getBoundsOfItems_doubles f xs) = rx (getBoundsOfItems_doubles f ys)"
    and "ry (getBoundsOfItems_doubles f xs) = ry (getBoundsOfItems_doubles f ys)"
proof -
  have "rx (getBoundsOfItems_doubles f xs) = rx (getBoundsOfItems_doubles f ys)
      \<and> ry (getBoundsOfItems_doubles f xs) = ry (getBoundsOfItems_doubles f ys)"
  proof (cases "xs = []")
    case True
    with assms show ?thesis by simp
  next
    case False
    with assms have ne: "xs \<noteq> []" "ys \<noteq> []" by auto
    show ?thesis
      by (simp add: getBoundsOfItems_doubles_corner [OF ne(1)]
          getBoundsOfItems_doubles_corner [OF ne(2)] assms)
  qed
  then show "rx (getBoundsOfItems_doubles f xs) = rx (getBoundsOfItems_doubles f ys)"
    and "ry (getBoundsOfItems_doubles f xs) = ry (getBoundsOfItems_doubles f ys)"
    by simp_all
qed

lemma getBoundsOfItems_doubles_snoc:
  "xs \<noteq> [] \<Longrightarrow>
   getBoundsOfItems_doubles f (xs @ [i]) = unite_doubles (getBoundsOfItems_doubles f xs) (f i)"
  by (cases xs) simp_all

text \<open>
  C9, as stated, fails on doubles. Take a point at \<open>0\<close>, a sliver of width
  \<open>2 powi (- 52)\<close> at \<open>1\<close> and a point at \<open>2 powi (- 53)\<close>. United in this order they give
  the width \<open>1 + 2 powi (- 52)\<close>. Starting with the sliver and the second point, the
  first union has the left edge \<open>2 powi (- 53)\<close> and its width
  \<open>1 + 2 powi (- 52) - 2 powi (- 53)\<close> rounds to \<open>1\<close>; its right edge is then read as
  \<open>2 powi (- 53) + 1\<close>, which rounds to \<open>1\<close>, and the final width is \<open>1\<close>.
\<close>

theorem getBoundsOfItems_doubles_order:
  "mset [1, 2, 3] = mset [2, 3, 1 :: item]
   \<and> getBoundsOfItems_doubles sliver_bounds [1, 2, 3]
     = \<lparr>rx = 0, ry = 0, rw = 1 + 2 powi (- 52), rh = 0\<rparr>
   \<and> getBoundsOfItems_doubles sliver_bounds [2, 3, 1] = \<lparr>rx = 0, ry = 0, rw = 1, rh = 0\<rparr>
   \<and> getBoundsOfItems_doubles sliver_bounds [1, 2, 3]
     \<noteq> getBoundsOfItems_doubles sliver_bounds [2, 3, 1]"
  by (simp add: sliver_bounds_def unite_doubles_def Let_def rnd_examples)

text \<open>
  C9, amended. For the empty sequence the bounds helper gives the zero-area rectangle
  at the origin, and for one item that item's bounds. For two sequences that are
  permutations of each other the corner \<open>(x, y)\<close> of the result is the same: it is the
  least \<open>x\<close> and the least \<open>y\<close> of the items, on doubles as in exact coordinates. The
  width and height are the same as well when the union is taken in exact coordinates,
  where the result is the smallest rectangle holding the bounds of every item, and,
  on doubles, for any two items. On doubles each further item is united into the result
  so far, so that the width and height depend on the order from three items on.
\<close>

theorem getBoundsOfItems_permutation:
  "getBoundsOfItems f [] = \<lparr>rx = 0, ry = 0, rw = 0, rh = 0\<rparr>
   \<and> getBoundsOfItems_doubles f [] = \<lparr>rx = 0, ry = 0, rw = 0, rh = 0\<rparr>
   \<and> getBoundsOfItems f [i] = f i
   \<and> getBoundsOfItems_doubles f [i] = f i
   \<and> getBoundsOfItems_doubles f [i, j] = getBoundsOfItems_doubles f [j, i]
   \<and> (mset xs = mset ys \<longrightarrow>
        getBoundsOfItems f xs = getBoundsOfItems f ys
        \<and> rx (getBoundsOfItems_doubles f xs) = rx (getBoundsOfItems_doubles f ys)
        \<and> ry (getBoundsOfItems_doubles f xs) = ry (getBoundsOfItems_doubles f ys))
   \<and> (xs \<noteq> [] \<longrightarrow>
        rx (getBoundsOfItems f xs) = Min ((rx \<circ> f) ` set xs)
        \<and> ry (getBoundsOfItems f xs) = Min ((ry \<circ> f) ` set xs)
        \<and> right_edge (getBoundsOfItems f xs) = Max ((right_edge \<circ> f) ` set xs)
        \<and> bottom_edge (getBoundsOfItems f xs) = Max ((bottom_edge \<circ> f) ` set xs)
        \<and> rx (getBoundsOfItems_doubles f xs) = Min ((rx \<circ> f) ` set xs)
        \<and> ry (getBoundsOfItems_doubles f xs) = Min ((ry \<circ> f) ` set xs)
        \<and> getBoundsOfItems_doubles f (xs @ [i])
          = unite_doubles (getBoundsOfItems_doubles f xs) (f i))"
proof -
  have "getBoundsOfItems_doubles f [i, j] = getBoundsOfItems_doubles f [j, i]"
    by (simp add: unite_doubles_commute)
  moreover have "mset xs = mset ys \<longrightarrow>
        getBoundsOfItems f xs = getBoundsOfItems f ys
        \<and> rx (getBoundsOfItems_doubles f xs) = rx (getBoundsOfItems_doubles f ys)
        \<and> ry (getBoundsOfItems_doubles f xs) = ry (getBoundsOfItems_doubles f ys)"
    by (auto dest!: mset_eq_setD
        intro: getBoundsOfItems_set_eq getBoundsOfItems_doubles_corner_set_eq)
  moreover have "xs \<noteq> [] \<longrightarrow>
        rx (getBoundsOfItems f xs) = Min ((rx \<circ> f) ` set xs)
        \<and> ry (getBoundsOfItems f xs) = Min ((ry \<circ> f) ` set xs)
        \<and> right_edge (getBoundsOfItems f xs) = Max ((right_edge \<circ> f) ` set xs)
        \<and> bottom_edge (getBoundsOfItems f xs) = Max ((bottom_edge \<circ> f) ` set xs)
        \<and> rx (getBoundsOfItems_doubles f xs) = Min ((rx \<circ> f) ` set xs)
        \<and> ry (getBoundsOfItems_doubles f xs) = Min ((ry \<circ> f) ` set xs)
        \<and> getBoundsOfItems_doubles f (xs @ [i])
          = unite_doubles (getBoundsOfItems_doubles f xs) (f i)"
    by (simp add: getBoundsOfItems_edges getBoundsOfItems_doubles_corner
        getBoundsOfItems_doubles_snoc)
  ultimately show ?thesis by (simp add: new_Rectangle_def)
qed

theorem getBoundsOfItems_permutation_witness:
  "mset [1, 2, 3] = mset [2, 3, 1 :: item]
   \<and> getBoundsOfItems sliver_bounds [1, 2, 3] = getBoundsOfItems sliver_bounds [2, 3, 1]
   \<and> rx (getBoundsOfItems_doubles sliver_bounds [1, 2, 3])
     = rx (getBoundsOfItems_doubles sliver_bounds [2, 3, 1])
   \<and> [1, 2, 3 :: item] \<noteq> []
   \<and> right_edge (getBoundsOfItems sliver_bounds [1, 2, 3])
     = Max ((right_edge \<circ> sliver_bounds) ` set [1, 2, 3])
   \<and> Max ((right_edge \<circ> sliver_bounds) ` set [1, 2, 3]) = 1 + 2 powi (- 52)"
proof -
  note t = getBoundsOfItems_permutation [of sliver_bounds 1 2 "[1, 2, 3]" "[2, 3, 1]"]
  have p: "mset [1, 2, 3] = mset [2, 3, 1 :: item]" by simp
  have n: "[1, 2, 3 :: item] \<noteq> []" by simp
  from t p have a: "getBoundsOfItems sliver_bounds [1, 2, 3]
      = getBoundsOfItems sliver_bounds [2, 3, 1]"
    "rx (getBoundsOfItems_doubles sliver_bounds [1, 2, 3])
      = rx (getBoundsOfItems_doubles sliver_bounds [2, 3, 1])"
    by blast+
  from t n have b: "right_edge (getBoundsOfItems sliver_bounds [1, 2, 3])
      = Max ((right_edge \<circ> sliver_bounds) ` set [1, 2, 3])"
    by blast
  have c: "Max ((right_edge \<circ> sliver_bounds) ` set [1, 2, 3]) = 1 + 2 powi (- 52)"
    by (simp add: sliver_bounds_def right_edge_def)
  from p n a b c show ?thesis by blast
qed


section \<open>Properties of the selection\<close>

lemmas constructor_unfold =
  constructor_def rebuild_def fresh_world_def no_args_def Let_def new_Rectangle_def
  center_def square_bounds_def

lemma empty_selection_simps:
  "items empty_selection = []"
  "gui empty_selection = Some 0"
  "matrix empty_selection = None"
  "untransformedBounds empty_selection = \<lparr>rx = 0, ry = 0, rw = 0, rh = 0\<rparr>"
  "transformation empty_selection
     = \<lparr>tx = Number (Fin 0), ty = Number (Fin 0), scaleX = Number (Fin 1),
        scaleY = Number (Fin 1), rotation = Number (Fin 0), originX = Number (Fin 0),
        originY = Number (Fin 0)\<rparr>"
  by (simp_all add: empty_selection_def constructor_unfold)

lemma empty_selection_world_simps:
  "console empty_selection_world = [Log ''Created Selection'']"
  "bounds empty_selection_world = square_bounds"
  by (simp_all add: empty_selection_world_def constructor_unfold)

lemma single_selection_simps:
  "items single_selection = [1]"
  "gui single_selection = Some 0"
  "matrix single_selection = None"
  "untransformedBounds single_selection = \<lparr>rx = 0, ry = 0, rw = 10, rh = 10\<rparr>"
  "transformation single_selection
     = \<lparr>tx = Number (Fin 0), ty = Number (Fin 0), scaleX = Number (Fin 1),
        scaleY = Number (Fin 1), rotation = Number (Fin 0), originX = Number (Fin 5),
        originY = Number (Fin 5)\<rparr>"
  by (simp_all add: single_selection_def constructor_unfold)

lemma shifted_selection_simps:
  "items shifted_selection = [1]"
  "gui shifted_selection = Some 0"
  "matrix shifted_selection = None"
  "untransformedBounds shifted_selection = \<lparr>rx = 0, ry = 0, rw = 10, rh = 10\<rparr>"
  "transformation shifted_selection
     = \<lparr>tx = Number (Fin 5), ty = Number (Fin 0), scaleX = Number (Fin 1),
        scaleY = Number (Fin 1), rotation = Number (Fin 0), originX = Number (Fin 5),
        originY = Number (Fin 5)\<rparr>"
  by (simp_all add: shifted_selection_def constructor_unfold)

lemma set_transformation_result:
  "gui s = Some g \<Longrightarrow>
   set_transformation t s w
     = (Inl TypeError, s\<lparr>transformation := t\<rparr>,
        w\<lparr>gui_calls := gui_calls w @ [Destroyed g]\<rparr>)"
  by (simp add: set_transformation_def destroy_def create_def)

lemma get_position_transformation:
  "get_position (s\<lparr>transformation := t\<rparr>) = get_position s"
  by (simp add: get_position_def)

lemma constructor_fields:
  "untransformedBounds (fst (constructor a w))
     = getBoundsOfItems (bounds w) (items (fst (constructor a w)))"
  "bounds (snd (constructor a w)) = bounds w"
  "matrix (fst (constructor a w)) = None"
  by (simp_all add: constructor_def rebuild_def Let_def no_args_def split: option.splits)

lemma set_items_untransformedBounds:
  "untransformedBounds (fst (snd (set_items is s w))) = untransformedBounds s"
  "bounds (snd (snd (set_items is s w))) = bounds w"
  by (simp_all add: set_items_def destroy_def split: option.splits)

lemma constructor_falsy:
  assumes "\<not> truthy v"
  shows "constructor (Some (a\<lparr>arg_x := Some v\<rparr>)) w = constructor (Some (a\<lparr>arg_x := None\<rparr>)) w"
    and "constructor (Some (a\<lparr>arg_y := Some v\<rparr>)) w = constructor (Some (a\<lparr>arg_y := None\<rparr>)) w"
    and "constructor (Some (a\<lparr>arg_scaleX := Some v\<rparr>)) w
           = constructor (Some (a\<lparr>arg_scaleX := None\<rparr>)) w"
    and "constructor (Some (a\<lparr>arg_scaleY := Some v\<rparr>)) w
           = constructor (Some (a\<lparr>arg_scaleY := None\<rparr>)) w"
    and "constructor (Some (a\<lparr>arg_rotation := Some v\<rparr>)) w
           = constructor (Some (a\<lparr>arg_rotation := None\<rparr>)) w"
  using assms by (simp_all add: constructor_def)

lemma constructor_transformation:
  "tx (transformation (fst (constructor (Some a) w))) = or_default (arg_x a) (Number (Fin 0))"
  "ty (transformation (fst (constructor (Some a) w))) = or_default (arg_y a) (Number (Fin 0))"
  "scaleX (transformation (fst (constructor (Some a) w)))
     = or_default (arg_scaleX a) (Number (Fin 1))"
  "scaleY (transformation (fst (constructor (Some a) w)))
     = or_default (arg_scaleY a) (Number (Fin 1))"
  "rotation (transformation (fst (constructor (Some a) w)))
     = or_default (arg_rotation a) (Number (Fin 0))"
  "originX (transformation (fst (constructor (Some a) w)))
     = (case arg_originX a of Some v \<Rightarrow> v
        | None \<Rightarrow> Number (Fin (px (center (untransformedBounds (fst (constructor (Some a) w)))))))"
  "originY (transformation (fst (constructor (Some a) w)))
     = (case arg_originY a of Some v \<Rightarrow> v
        | None \<Rightarrow> Number (Fin (py (center (untransformedBounds (fst (constructor (Some a) w)))))))"
  by (simp_all add: constructor_def rebuild_def Let_def split: option.splits)

text \<open>
  C1. The position getter maps the top-left corner of the untransformed bounds through
  \<open>this._matrix\<close>, which nothing in the class ever assigns: the constructor, \<open>_rebuild\<close>
  and the transformation setter leave it \<open>undefined\<close>. For the selection built by
  \<open>new paper.Selection({items: [item], x: 5})\<close> on an item with bounds \<open>[0, 0, 10, 10]\<close>
  the getter returns \<open>(0, 0)\<close>, where the matrix of the specification gives \<open>(5, 0)\<close>.
\<close>

theorem position_ignores_transformation:
  "get_position shifted_selection = \<lparr>px = 0, py = 0\<rparr>
   \<and> transformation shifted_selection
     = \<lparr>tx = Number (Fin 5), ty = Number (Fin 0), scaleX = Number (Fin 1),
        scaleY = Number (Fin 1), rotation = Number (Fin 0), originX = Number (Fin 5),
        originY = Number (Fin 5)\<rparr>
   \<and> transformPoint (spec_matrix 5 0 1 1 0 5 5) (topLeft (untransformedBounds shifted_selection))
     = \<lparr>px = 5, py = 0\<rparr>
   \<and> matrix shifted_selection = None
   \<and> matrix (fst (snd (set_transformation (transformation single_selection) shifted_selection
         fresh_world)))
     = None"
  by (simp add: shifted_selection_simps get_position_def topLeft_def transformPoint_def
      spec_matrix_def compose_def translate_matrix_def rotate_matrix_def scale_matrix_def
      set_transformation_result [OF shifted_selection_simps(2)])


text \<open>
  C2. On a selection of one item with bounds \<open>[0, 0, 10, 10]\<close>, setting the position to
  \<open>(5, 5)\<close> ends in a \<open>TypeError\<close> (the transformation setter calls \<open>this._create()\<close>,
  which the class does not define) after the translation \<open>(5, 5)\<close> has been stored, and
  the position read afterwards is still \<open>(0, 0)\<close>.
\<close>

theorem set_position_raises:
  "fst (set_position \<lparr>px = 5, py = 5\<rparr> single_selection single_selection_world) = Inl TypeError
   \<and> get_position
        (fst (snd (set_position \<lparr>px = 5, py = 5\<rparr> single_selection single_selection_world)))
       = \<lparr>px = 0, py = 0\<rparr>
   \<and> tx (transformation
        (fst (snd (set_position \<lparr>px = 5, py = 5\<rparr> single_selection single_selection_world))))
       = Number (Fin 5)
   \<and> ty (transformation
        (fst (snd (set_position \<lparr>px = 5, py = 5\<rparr> single_selection single_selection_world))))
       = Number (Fin 5)"
  by (simp add: set_position_def updateTransformation_def
      set_transformation_result [OF single_selection_simps(2)]
      get_position_def get_transformation_def single_selection_simps topLeft_def Let_def
      subtract_def js_add_def assign_def no_change_def num_add_0_5)


lemma huge_selection_simps:
  "items huge_selection = [1]"
  "gui huge_selection = Some 0"
  "untransformedBounds huge_selection = \<lparr>rx = 0, ry = 0, rw = 10, rh = 10\<rparr>"
  "scaleX (transformation huge_selection) = Number (Fin (2 ^ 1023))"
  by (simp_all add: huge_selection_def constructor_unfold)

lemma set_width_result:
  assumes "gui s = Some g"
  shows "set_width v s w
     = (Inl TypeError,
        s\<lparr>transformation :=
             assign (get_transformation s)
               (no_change\<lparr>new_scaleX :=
                  Some (js_div (scaleX (get_transformation s)) (js_div (get_width s) v))\<rparr>)\<rparr>,
        w\<lparr>gui_calls := gui_calls w @ [Destroyed g]\<rparr>)"
  using assms
  by (simp add: set_width_def updateTransformation_def set_transformation_result Let_def)

lemma get_width_new_scale:
  "get_width (s\<lparr>transformation := assign t (no_change\<lparr>new_scaleX := Some v\<rparr>)\<rparr>)
     = js_mul (Number (Fin (rw (untransformedBounds s)))) (json v)"
  by (simp add: get_width_def get_transformation_def assign_def no_change_def Let_def)

lemma get_width_Fin:
  "scaleX (transformation s) = Number (Fin k) \<Longrightarrow>
   get_width s = Number (num_mul (Fin (rw (untransformedBounds s))) (Fin k))"
  by (simp add: get_width_def get_transformation_def js_mul_def Let_def)

text \<open>
  C3, as stated, fails in three ways. On the empty selection the width is \<open>0\<close>: setting
  it to \<open>5\<close> divides the scale by \<open>0 / 5 = 0\<close>, the stored scale is \<open>Infinity\<close>, which the
  transformation getter reads back as \<open>null\<close>, and the width reads \<open>0\<close>. On one item of
  width \<open>10\<close> at scale \<open>1\<close>, setting the width to \<open>13\<close> stores the scale
  \<open>1 / (10 / 13)\<close>, which is \<open>1.2999999999999998\<close> on doubles, and the width reads
  \<open>12.999999999999998\<close>. On the same item at scale \<open>2 ** 1023\<close> the width overflows to
  \<open>Infinity\<close>: setting it to \<open>5\<close> stores the scale \<open>0\<close>, and the width reads \<open>0\<close>.
\<close>

theorem set_width_not_round_trip:
  "get_width (fst (snd (set_width (Number (Fin 5)) empty_selection empty_selection_world)))
     = Number (Fin 0)
   \<and> Number (Fin 0) \<noteq> Number (Fin 5)
   \<and> get_width (fst (snd (set_width (Number (Fin 13)) single_selection single_selection_world)))
     = Number (Fin (7318349394477055 / 562949953421312))
   \<and> Number (Fin (7318349394477055 / 562949953421312)) \<noteq> Number (Fin 13)
   \<and> get_width (fst (snd (set_width (Number (Fin 5)) huge_selection huge_selection_world)))
     = Number (Fin 0)"
proof -
  have a: "get_width
      (fst (snd (set_width (Number (Fin 5)) empty_selection empty_selection_world)))
      = Number (Fin 0)"
    by (simp add: set_width_result [OF empty_selection_simps(2)]
        get_width_def get_transformation_def empty_selection_simps js_mul_def js_div_def
        width_zero_steps Let_def assign_def no_change_def)
  have b: "get_width
      (fst (snd (set_width (Number (Fin 13)) single_selection single_selection_world)))
      = Number (Fin (7318349394477055 / 562949953421312))"
    by (simp add: set_width_result [OF single_selection_simps(2)]
        get_width_def get_transformation_def single_selection_simps js_mul_def js_div_def
        width_13_steps Let_def assign_def no_change_def)
  have c: "get_width
      (fst (snd (set_width (Number (Fin 5)) huge_selection huge_selection_world)))
      = Number (Fin 0)"
    using width_huge_steps
    by (simp add: set_width_result [OF huge_selection_simps(2)]
        get_width_def get_transformation_def huge_selection_simps js_mul_def js_div_def
        Let_def assign_def no_change_def)
  from a b c show ?thesis by simp
qed

text \<open>
  C3, amended. For every constructed selection whose untransformed bounds have a width,
  and whose \<open>scaleX\<close> is a finite number, of magnitude between \<open>2 powi (- 200)\<close> and
  \<open>2 powi 200\<close>, and every \<open>W > 0\<close> in the same range, the width setter stores the
  scale \<open>oldScale / (oldWidth / W)\<close> as the doubles compute it; the width read from the
  resulting selection is a finite number \<open>r\<close> with \<open>\<bar>r - W\<bar> \<le> 2 powi (- 50) * W\<close>. The
  call itself ends in the \<open>TypeError\<close> of the missing \<open>_create\<close>.
\<close>

theorem set_width_then_get_width:
  assumes "gui s = Some g"
    and "moderate 200 (rw (untransformedBounds s))"
    and "scaleX (transformation s) = Number (Fin k)" and "moderate 200 k"
    and "moderate 200 W" and "0 < W"
  shows "fst (set_width (Number (Fin W)) s w) = Inl TypeError
     \<and> scaleX (transformation (fst (snd (set_width (Number (Fin W)) s w))))
       = js_div (Number (Fin k))
           (js_div (js_mul (Number (Fin (rw (untransformedBounds s)))) (Number (Fin k)))
              (Number (Fin W)))
     \<and> (\<exists>r. get_width (fst (snd (set_width (Number (Fin W)) s w))) = Number (Fin r)
            \<and> \<bar>r - W\<bar> \<le> 2 powi (- 50) * W)"
proof -
  define bw where "bw = rw (untransformedBounds s)"
  from width_round_trip [OF assms(2) [folded bw_def] assms(4,5,6)] obtain k' r
    where k': "num_div (Fin k) (num_div (num_mul (Fin bw) (Fin k)) (Fin W)) = Fin k'"
      and r: "num_mul (Fin bw) (Fin k') = Fin r"
      and err: "\<bar>r - W\<bar> \<le> 2 powi (- 50) * W"
    by blast
  have gt: "scaleX (get_transformation s) = Number (Fin k)"
    using assms(3) by (simp add: get_transformation_def Let_def)
  have gw: "get_width s = Number (num_mul (Fin bw) (Fin k))"
    using assms(3) by (simp add: get_width_Fin bw_def)
  have new: "js_div (scaleX (get_transformation s)) (js_div (get_width s) (Number (Fin W)))
      = Number (Fin k')"
    by (simp add: gt gw js_div_def k')
  have "fst (set_width (Number (Fin W)) s w) = Inl TypeError"
    by (simp add: set_width_result [OF assms(1)])
  moreover have "scaleX (transformation (fst (snd (set_width (Number (Fin W)) s w))))
      = js_div (Number (Fin k)) (js_div (js_mul (Number (Fin bw)) (Number (Fin k)))
          (Number (Fin W)))"
    by (simp add: set_width_result [OF assms(1)] assign_def no_change_def gt gw js_div_def
        js_mul_def)
  moreover have "get_width (fst (snd (set_width (Number (Fin W)) s w))) = Number (Fin r)"
    by (simp add: set_width_result [OF assms(1)] get_width_new_scale new js_mul_def r
        bw_def [symmetric])
  ultimately show ?thesis using err by (auto simp: bw_def)
qed

theorem set_width_then_get_width_witness:
  "gui single_selection = Some 0
   \<and> moderate 200 (rw (untransformedBounds single_selection))
   \<and> scaleX (transformation single_selection) = Number (Fin 1)
   \<and> moderate 200 1 \<and> moderate 200 20 \<and> (0::real) < 20
   \<and> fst (set_width (Number (Fin 20)) single_selection single_selection_world) = Inl TypeError
   \<and> scaleX (transformation
        (fst (snd (set_width (Number (Fin 20)) single_selection single_selection_world))))
     = Number (Fin 2)
   \<and> (\<exists>r. get_width
             (fst (snd (set_width (Number (Fin 20)) single_selection single_selection_world)))
           = Number (Fin r)
         \<and> \<bar>r - 20\<bar> \<le> 2 powi (- 50) * 20)"
proof -
  have m: "moderate 200 (rw (untransformedBounds single_selection))" "moderate 200 1"
    "moderate 200 20"
    by (simp_all add: moderate_def single_selection_simps)
  have h: "gui single_selection = Some 0"
    "scaleX (transformation single_selection) = Number (Fin 1)" "(0::real) < 20"
    by (simp_all add: single_selection_simps)
  note t = set_width_then_get_width [OF h(1) m(1) h(2) m(2) m(3) h(3), of single_selection_world]
  have "js_div (Number (Fin 1))
      (js_div (js_mul (Number (Fin (rw (untransformedBounds single_selection)))) (Number (Fin 1)))
         (Number (Fin 20)))
      = Number (Fin 2)"
    by (simp add: single_selection_simps js_div_def js_mul_def width_13_steps width_20_steps)
  with t m h show ?thesis by simp
qed

text \<open>
  C4, as stated, fails: the items setter replaces the sequence and leaves
  \<open>untransformedBounds\<close> as it was. After \<open>new paper.Selection()\<close> and
  \<open>selection.items = [item]\<close> the bounds are still the zero box, not the item's bounds.
\<close>

theorem set_items_stale_bounds:
  "items (fst (snd (set_items [1] empty_selection empty_selection_world))) = [1]
   \<and> untransformedBounds (fst (snd (set_items [1] empty_selection empty_selection_world)))
     \<noteq> getBoundsOfItems
          (bounds (snd (snd (set_items [1] empty_selection empty_selection_world))))
          (items (fst (snd (set_items [1] empty_selection empty_selection_world))))"
  by (simp add: set_items_def destroy_def empty_selection_simps empty_selection_world_simps
      square_bounds_def)


text \<open>
  C4, amended. \<open>untransformedBounds\<close> is computed in the constructor, as the union of
  the bounds of the items given there: the zero-size box at the origin when there is no
  item, and otherwise the box whose left and top edges are the least, and whose right
  and bottom edges are the greatest, of the items' edges. The items setter does not
  recompute it: \<open>untransformedBounds\<close> is after the setter what it was before.
\<close>

theorem untransformedBounds_from_constructor:
  "untransformedBounds (fst (constructor a w))
     = getBoundsOfItems (bounds w) (items (fst (constructor a w)))
   \<and> (items (fst (constructor a w)) = [] \<longrightarrow>
        untransformedBounds (fst (constructor a w)) = \<lparr>rx = 0, ry = 0, rw = 0, rh = 0\<rparr>)
   \<and> (items (fst (constructor a w)) \<noteq> [] \<longrightarrow>
        rx (untransformedBounds (fst (constructor a w)))
          = Min ((rx \<circ> bounds w) ` set (items (fst (constructor a w))))
        \<and> ry (untransformedBounds (fst (constructor a w)))
          = Min ((ry \<circ> bounds w) ` set (items (fst (constructor a w))))
        \<and> right_edge (untransformedBounds (fst (constructor a w)))
          = Max ((right_edge \<circ> bounds w) ` set (items (fst (constructor a w))))
        \<and> bottom_edge (untransformedBounds (fst (constructor a w)))
          = Max ((bottom_edge \<circ> bounds w) ` set (items (fst (constructor a w)))))
   \<and> untransformedBounds (fst (snd (set_items is s w'))) = untransformedBounds s"
  by (simp add: constructor_fields set_items_untransformedBounds getBoundsOfItems_edges
      new_Rectangle_def)

theorem untransformedBounds_from_constructor_witness:
  "items (fst (constructor None fresh_world)) = []
   \<and> untransformedBounds (fst (constructor None fresh_world))
     = \<lparr>rx = 0, ry = 0, rw = 0, rh = 0\<rparr>
   \<and> items (fst (constructor (Some (no_args\<lparr>arg_items := Some [1]\<rparr>)) fresh_world)) \<noteq> []
   \<and> right_edge
       (untransformedBounds (fst (constructor (Some (no_args\<lparr>arg_items := Some [1]\<rparr>)) fresh_world)))
     = Max ((right_edge \<circ> bounds fresh_world)
            ` set (items (fst (constructor (Some (no_args\<lparr>arg_items := Some [1]\<rparr>)) fresh_world))))
   \<and> untransformedBounds (fst (snd (set_items [1] empty_selection empty_selection_world)))
     = untransformedBounds empty_selection"
  using untransformedBounds_from_constructor
      [of None fresh_world "[1]" empty_selection empty_selection_world]
    untransformedBounds_from_constructor
      [of "Some (no_args\<lparr>arg_items := Some [1]\<rparr>)" fresh_world "[1]" empty_selection
        empty_selection_world]
    empty_selection_simps(1) single_selection_simps(1)
  by (simp add: empty_selection_def single_selection_def new_Rectangle_def)

text \<open>
  C5. Assigning a list through the items setter leaves the transformation (and every
  other field but the items) as it was, and the only call made on a widget is one
  \<open>destroy()\<close> of the current widget: no widget is created.
\<close>

theorem set_items_frame:
  assumes "gui s = Some g"
  shows "set_items is s w
     = (Inr (), s\<lparr>items := is\<rparr>, w\<lparr>gui_calls := gui_calls w @ [Destroyed g]\<rparr>)"
  using assms by (simp add: set_items_def destroy_def)


theorem set_items_frame_witness:
  "gui single_selection = Some 0
   \<and> set_items [2, 3] single_selection single_selection_world
     = (Inr (), single_selection\<lparr>items := [2, 3]\<rparr>,
        single_selection_world
          \<lparr>gui_calls := gui_calls single_selection_world @ [Destroyed 0]\<rparr>)"
  using set_items_frame [of single_selection 0 "[2, 3]" single_selection_world]
  by (simp add: single_selection_simps)

text \<open>
  C6. Reading \<open>fillColor\<close>, \<open>strokeColor\<close> or \<open>strokeWidth\<close> on the empty selection
  reports the diagnostic and then raises a \<open>TypeError\<close>: after \<open>console.error\<close> the
  method still evaluates \<open>this.items[0][attributeName]\<close>.
\<close>

theorem getPathAttribute_empty_raises:
  "get_fillColor no_attributes empty_selection empty_selection_world
     = (Inl TypeError,
        empty_selection_world\<lparr>console := [Log ''Created Selection'',
          Error ''getPathAttribute(): Nothing in the selection!'']\<rparr>)
   \<and> fst (get_strokeColor no_attributes empty_selection empty_selection_world) = Inl TypeError
   \<and> fst (get_strokeWidth no_attributes empty_selection empty_selection_world) = Inl TypeError"
  by (simp add: get_fillColor_def get_strokeColor_def get_strokeWidth_def getPathAttribute_def
      get_items_def empty_selection_simps empty_selection_world_simps)


text \<open>
  C10. In the constructor a \<open>scaleX\<close> or \<open>scaleY\<close> of \<open>0\<close> gives the same selection as
  leaving it out, with a scale of \<open>1\<close>; the same holds for every falsy value of \<open>x\<close>,
  \<open>y\<close>, \<open>scaleX\<close>, \<open>scaleY\<close> and \<open>rotation\<close>. An \<open>originX\<close> or \<open>originY\<close> of \<open>0\<close> is kept
  as \<open>0\<close>.
\<close>

theorem constructor_falsy_defaults:
  "constructor (Some (a\<lparr>arg_scaleX := Some (Number (Fin 0))\<rparr>)) w
     = constructor (Some (a\<lparr>arg_scaleX := None\<rparr>)) w
   \<and> scaleX (transformation (fst (constructor (Some (a\<lparr>arg_scaleX := Some (Number (Fin 0))\<rparr>)) w)))
     = Number (Fin 1)
   \<and> constructor (Some (a\<lparr>arg_scaleY := Some (Number (Fin 0))\<rparr>)) w
     = constructor (Some (a\<lparr>arg_scaleY := None\<rparr>)) w
   \<and> scaleY (transformation (fst (constructor (Some (a\<lparr>arg_scaleY := Some (Number (Fin 0))\<rparr>)) w)))
     = Number (Fin 1)
   \<and> (\<forall>v. \<not> truthy v \<longrightarrow>
        constructor (Some (a\<lparr>arg_x := Some v\<rparr>)) w = constructor (Some (a\<lparr>arg_x := None\<rparr>)) w
        \<and> constructor (Some (a\<lparr>arg_y := Some v\<rparr>)) w = constructor (Some (a\<lparr>arg_y := None\<rparr>)) w
        \<and> constructor (Some (a\<lparr>arg_scaleX := Some v\<rparr>)) w
          = constructor (Some (a\<lparr>arg_scaleX := None\<rparr>)) w
        \<and> constructor (Some (a\<lparr>arg_scaleY := Some v\<rparr>)) w
          = constructor (Some (a\<lparr>arg_scaleY := None\<rparr>)) w
        \<and> constructor (Some (a\<lparr>arg_rotation := Some v\<rparr>)) w
          = constructor (Some (a\<lparr>arg_rotation := None\<rparr>)) w)
   \<and> originX (transformation (fst (constructor (Some (a\<lparr>arg_originX := Some (Number (Fin 0))\<rparr>)) w)))
     = Number (Fin 0)
   \<and> originY (transformation (fst (constructor (Some (a\<lparr>arg_originY := Some (Number (Fin 0))\<rparr>)) w)))
     = Number (Fin 0)"
  by (simp add: constructor_falsy constructor_transformation)

theorem constructor_falsy_defaults_witness:
  "\<not> truthy Null
   \<and> constructor (Some (no_args\<lparr>arg_items := Some [1], arg_rotation := Some Null\<rparr>)) fresh_world
     = constructor (Some (no_args\<lparr>arg_items := Some [1], arg_rotation := None\<rparr>)) fresh_world
   \<and> originX (transformation (fst (constructor
        (Some (no_args\<lparr>arg_items := Some [1], arg_originX := Some (Number (Fin 0))\<rparr>))
        fresh_world)))
     = Number (Fin 0)
   \<and> originX (transformation single_selection) = Number (Fin 5)"
  using constructor_falsy_defaults [of "no_args\<lparr>arg_items := Some [1]\<rparr>" fresh_world]
  by (simp add: single_selection_simps)


section \<open>Properties of the depth operations\<close>


lemma index_in_first: "i \<notin> set xs \<Longrightarrow> index_in (xs @ i # ys) i = length xs"
  by (induction xs) (auto simp: index_in_def)

lemma concat_map_unique:
  "distinct (concat (map f ls)) \<Longrightarrow> l \<in> set ls \<Longrightarrow> l' \<in> set ls \<Longrightarrow>
   i \<in> set (f l) \<Longrightarrow> i \<in> set (f l') \<Longrightarrow> l = l'"
  by (induction ls) auto

lemma concat_map_distinct:
  "distinct (concat (map f ls)) \<Longrightarrow> l \<in> set ls \<Longrightarrow> distinct (f l)"
  by (induction ls) auto

lemma item_layer_SomeD:
  "item_layer sc i = Some l \<Longrightarrow> l \<in> set (layers sc) \<and> i \<in> set (children sc l)"
  by (auto simp: item_layer_def find_Some_iff)

lemma wf_scene_distinct:
  "wf_scene sc \<Longrightarrow> l \<in> set (layers sc) \<Longrightarrow> distinct (children sc l)"
  unfolding wf_scene_def by (rule concat_map_distinct)

lemma wf_scene_item_layer:
  assumes "wf_scene sc" "l \<in> set (layers sc)" "i \<in> set (children sc l)"
  shows "item_layer sc i = Some l"
proof (cases "item_layer sc i")
  case None
  with assms(2,3) show ?thesis by (auto simp: item_layer_def find_None_iff)
next
  case (Some l')
  then have "l' \<in> set (layers sc)" "i \<in> set (children sc l')"
    by (simp_all add: item_layer_SomeD)
  with assms have "l' = l"
    unfolding wf_scene_def by (blast intro: concat_map_unique)
  with Some show ?thesis by simp
qed

lemma mset_concat_map_upd:
  "mset cs = mset (f l) \<Longrightarrow> mset (concat (map (f(l := cs)) ls)) = mset (concat (map f ls))"
  by (induction ls) auto

lemma item_layer_cong:
  assumes "layers sc' = layers sc" "\<And>l. set (children sc' l) = set (children sc l)"
  shows "item_layer sc' i = item_layer sc i"
  by (simp add: item_layer_def assms)

text \<open>Reordering the children of one layer keeps a scene well formed.\<close>

lemma reorder_layer:
  assumes "wf_scene sc" "mset cs = mset (children sc l)"
  shows "wf_scene (sc\<lparr>children := (children sc)(l := cs)\<rparr>)"
    and "layers (sc\<lparr>children := (children sc)(l := cs)\<rparr>) = layers sc"
    and "item_layer (sc\<lparr>children := (children sc)(l := cs)\<rparr>) i = item_layer sc i"
proof -
  have "mset (concat (map ((children sc)(l := cs)) (layers sc)))
      = mset (concat (map (children sc) (layers sc)))"
    using assms(2) by (rule mset_concat_map_upd)
  then have "distinct (concat (map ((children sc)(l := cs)) (layers sc)))
      = distinct (concat (map (children sc) (layers sc)))"
    by (rule mset_eq_imp_distinct_iff)
  with assms(1) show "wf_scene (sc\<lparr>children := (children sc)(l := cs)\<rparr>)"
    by (simp add: wf_scene_def)
  show "layers (sc\<lparr>children := (children sc)(l := cs)\<rparr>) = layers sc" by simp
  have "set cs = set (children sc l)" using assms(2) by (rule mset_eq_setD)
  then show "item_layer (sc\<lparr>children := (children sc)(l := cs)\<rparr>) i = item_layer sc i"
    by (intro item_layer_cong) auto
qed










lemma example_selection_items:
  "items back_two = [1, 2]"
  "items front_two = [2, 3]"
  "items middle_three = [3, 2, 4]"
  by (simp_all add: back_two_def front_two_def middle_three_def constructor_def rebuild_def
      Let_def)



lemma index_in_less: "i \<in> set xs \<Longrightarrow> index_in (xs @ ys) i < length xs"
  by (induction xs) (auto simp: index_in_def)

lemma layerLists_one_layer:
  "\<forall>i\<in>set is. item_layer sc i = Some l \<Longrightarrow>
   layerLists sc is [(l, xs)] = Inr [(l, xs @ is)]"
  by (induction "is" arbitrary: xs) simp_all

lemma sortItemsByLayer_one_layer:
  assumes "\<forall>i\<in>set is. item_layer sc i = Some l" "is \<noteq> []"
  shows "sortItemsByLayer sc is = Inr [is]"
proof -
  from assms(2) obtain i js where is_def: "is = i # js" by (cases "is") auto
  with assms(1) have "layerLists sc is [] = layerLists sc js [(l, [i])]" by simp
  also have "\<dots> = Inr [(l, [i] @ js)]"
    using assms(1) by (intro layerLists_one_layer) (simp add: is_def)
  finally show ?thesis by (simp add: sortItemsByLayer_def is_def)
qed

lemma item_bringToFront_layer:
  assumes "wf_scene sc" "l \<in> set (layers sc)" "children sc l = a @ i # b"
  shows "item_bringToFront i sc = sc\<lparr>children := (children sc)(l := a @ b @ [i])\<rparr>"
proof -
  have "distinct (a @ i # b)" using wf_scene_distinct [OF assms(1,2)] assms(3) by simp
  then have "remove1 i (a @ i # b) = a @ b" by (simp add: remove1_append)
  moreover have "item_layer sc i = Some l"
    by (rule wf_scene_item_layer [OF assms(1,2)]) (simp add: assms(3))
  ultimately show ?thesis by (simp add: item_bringToFront_def assms(3))
qed

text \<open>
  C7. In a well-formed scene, let the items \<open>A\<close>, \<open>B\<close>, \<open>C\<close> be adjacent in a layer, in
  this depth order, and let the selection hold exactly these three, in any order. Then
  \<open>bringToFront\<close> returns, the three items are the last of the layer (frontmost) in the
  order \<open>A\<close>, \<open>B\<close>, \<open>C\<close>, and every other item of the layer is behind them, in its
  former order.
\<close>

theorem bringToFront_three_adjacent:
  assumes wf: "wf_scene sc" and l: "l \<in> set (layers sc)"
    and cs: "children sc l = pre @ [A, B, C] @ post"
    and sel: "mset (items s) = mset [A, B, C]"
  shows "\<exists>sc'. bringToFront s sc = Inr sc'
     \<and> children sc' l = pre @ post @ [A, B, C]
     \<and> item_index sc' A < item_index sc' B \<and> item_index sc' B < item_index sc' C
     \<and> (\<forall>x\<in>set (children sc' l). x \<notin> set (items s) \<longrightarrow> item_index sc' x < item_index sc' A)"
proof -
  have d: "distinct (pre @ [A, B, C] @ post)"
    using wf_scene_distinct [OF wf l] cs by simp
  have set_sel: "set (items s) = {A, B, C}" using mset_eq_setD [OF sel] by simp
  have lay: "item_layer sc A = Some l" "item_layer sc B = Some l" "item_layer sc C = Some l"
    by (rule wf_scene_item_layer [OF wf l], simp add: cs)+
  have idx: "item_index sc A = length pre" "item_index sc B = Suc (length pre)"
    "item_index sc C = Suc (Suc (length pre))"
    using d index_in_first [of A pre "[B, C] @ post"]
      index_in_first [of B "pre @ [A]" "[C] @ post"]
      index_in_first [of C "pre @ [A, B]" post]
    by (simp_all add: item_index_def lay cs)
  have ne: "items s \<noteq> []" using sel by auto
  have groups: "sortItemsByLayer sc (items s) = Inr [items s]"
    using lay ne by (intro sortItemsByLayer_one_layer [where l = l]) (auto simp: set_sel)
  have "A \<noteq> B" "A \<noteq> C" "B \<noteq> C" using d by auto
  then have inj: "inj_on (item_index sc) (set (items s))"
    by (simp add: set_sel idx)
  have sorted: "sortItemsByZIndex sc (items s) = [A, B, C]"
    unfolding sortItemsByZIndex_def
    by (rule sort_key_inj_key_eq [OF sel inj]) (simp add: idx)
  define sc1 where "sc1 = sc\<lparr>children := (children sc)(l := (pre @ [B, C]) @ post @ [A])\<rparr>"
  define sc2 where "sc2 = sc1\<lparr>children := (children sc1)(l := (pre @ [C]) @ (post @ [A]) @ [B])\<rparr>"
  define sc3 where "sc3 = sc2\<lparr>children := (children sc2)(l := pre @ (post @ [A, B]) @ [C])\<rparr>"
  have s1: "item_bringToFront A sc = sc1"
    unfolding sc1_def using item_bringToFront_layer [OF wf l, of pre A "[B, C] @ post"] cs
    by simp
  have wf1: "wf_scene sc1" and l1: "l \<in> set (layers sc1)"
    unfolding sc1_def using reorder_layer [OF wf, of "(pre @ [B, C]) @ post @ [A]" l] l cs
    by simp_all
  have cs1: "children sc1 l = (pre @ [B, C]) @ post @ [A]" by (simp add: sc1_def)
  have s2: "item_bringToFront B sc1 = sc2"
    unfolding sc2_def
    using item_bringToFront_layer [OF wf1 l1, of pre B "[C] @ post @ [A]"] cs1 by simp
  have wf2: "wf_scene sc2" and l2: "l \<in> set (layers sc2)"
    unfolding sc2_def
    using reorder_layer [OF wf1, of "(pre @ [C]) @ (post @ [A]) @ [B]" l] l1 cs1
    by simp_all
  have cs2: "children sc2 l = (pre @ [C]) @ (post @ [A]) @ [B]" by (simp add: sc2_def)
  have s3: "item_bringToFront C sc2 = sc3"
    unfolding sc3_def
    using item_bringToFront_layer [OF wf2 l2, of pre C "post @ [A, B]"] cs2 by simp
  have wf3: "wf_scene sc3" and l3: "l \<in> set (layers sc3)"
    unfolding sc3_def
    using reorder_layer [OF wf2, of "pre @ (post @ [A, B]) @ [C]" l] l2 cs2
    by simp_all
  have cs3: "children sc3 l = pre @ post @ [A, B, C]" by (simp add: sc3_def)
  have run: "bringToFront s sc = Inr sc3"
    by (simp add: bringToFront_def groups sorted s1 s2 s3)
  have d3: "distinct (pre @ post @ [A, B, C])"
    using wf_scene_distinct [OF wf3 l3] cs3 by simp
  have lay3: "\<And>x. x \<in> set (children sc3 l) \<Longrightarrow> item_layer sc3 x = Some l"
    by (rule wf_scene_item_layer [OF wf3 l3])
  have idx3: "item_index sc3 A = length (pre @ post)"
    "item_index sc3 B = Suc (length (pre @ post))"
    "item_index sc3 C = Suc (Suc (length (pre @ post)))"
    using d3 index_in_first [of A "pre @ post" "[B, C]"]
      index_in_first [of B "pre @ post @ [A]" "[C]"]
      index_in_first [of C "pre @ post @ [A, B]" "[]"]
    by (simp_all add: item_index_def lay3 cs3)
  have front: "\<forall>x\<in>set (children sc3 l). x \<notin> set (items s) \<longrightarrow>
      item_index sc3 x < item_index sc3 A"
  proof (intro ballI impI)
    fix x assume x: "x \<in> set (children sc3 l)" "x \<notin> set (items s)"
    then have "x \<in> set (pre @ post)" by (auto simp: cs3 set_sel)
    then have "index_in ((pre @ post) @ [A, B, C]) x < length (pre @ post)"
      by (rule index_in_less)
    moreover have "item_index sc3 x = index_in ((pre @ post) @ [A, B, C]) x"
      using lay3 [OF x(1)] by (simp add: item_index_def cs3)
    ultimately show "item_index sc3 x < item_index sc3 A"
      by (simp only: idx3(1))
  qed
  from run cs3 idx3 front show ?thesis by simp
qed

theorem bringToFront_three_adjacent_witness:
  "wf_scene five_items \<and> 0 \<in> set (layers five_items)
   \<and> children five_items 0 = [1] @ [2, 3, 4] @ [5]
   \<and> mset (items middle_three) = mset [2, 3, 4]
   \<and> (\<exists>sc'. bringToFront middle_three five_items = Inr sc'
         \<and> children sc' 0 = [1] @ [5] @ [2, 3, 4]
         \<and> item_index sc' 2 < item_index sc' 3 \<and> item_index sc' 3 < item_index sc' 4
         \<and> 5 \<in> set (children sc' 0) \<and> 5 \<notin> set (items middle_three)
         \<and> item_index sc' 5 < item_index sc' 2)"
proof -
  have h: "wf_scene five_items" "0 \<in> set (layers five_items)"
    "children five_items 0 = [1] @ [2, 3, 4] @ [5]"
    "mset (items middle_three) = mset [2, 3, 4]"
    by (simp_all add: example_selection_items five_items_def wf_scene_def)
  from bringToFront_three_adjacent [OF h] obtain sc'
    where r: "bringToFront middle_three five_items = Inr sc'"
      "children sc' 0 = [1] @ [5] @ [2, 3, 4]"
      "item_index sc' 2 < item_index sc' 3" "item_index sc' 3 < item_index sc' 4"
      "\<forall>x\<in>set (children sc' 0). x \<notin> set (items middle_three) \<longrightarrow>
         item_index sc' x < item_index sc' 2"
    by blast
  have "5 \<in> set (children sc' 0)" "5 \<notin> set (items middle_three)"
    by (simp_all add: r(2) example_selection_items)
  with r h show ?thesis by auto
qed

end
